theory Spec2Isabelle
  imports Main "HOL-Library.Sublist"
begin

section \<open>Python strings\<close>

text \<open>
  Python strings are modelled as \<^typ>\<open>string\<close>; a character stands for a code point
  below 256. \<open>str.strip()\<close> removes the characters for which \<open>str.isspace\<close> holds,
  \<open>str.lower()\<close> maps the upper-case letters to their lower-case forms, and
  \<open>a in b\<close> on strings is \<^const>\<open>sublist\<close>.
\<close>

definition isspace :: "char \<Rightarrow> bool" where
  "isspace c = (let n = (of_char c :: nat) in
     (9 \<le> n \<and> n \<le> 13) \<or> (28 \<le> n \<and> n \<le> 32) \<or> n = 133 \<or> n = 160)"

definition lstrip :: "string \<Rightarrow> string" where
  "lstrip s = dropWhile isspace s"

definition rstrip :: "string \<Rightarrow> string" where
  "rstrip s = rev (dropWhile isspace (rev s))"

definition strip :: "string \<Rightarrow> string" where
  "strip s = rstrip (lstrip s)"

definition lower_char :: "char \<Rightarrow> char" where
  "lower_char c = (let n = (of_char c :: nat) in
     if (65 \<le> n \<and> n \<le> 90) \<or> (192 \<le> n \<and> n \<le> 222 \<and> n \<noteq> 215)
     then char_of (n + 32) else c)"

definition lower :: "string \<Rightarrow> string" where
  "lower s = map lower_char s"

text \<open>\<open>s.replace(',', '')\<close>: every comma is deleted.\<close>

definition remove_commas :: "string \<Rightarrow> string" where
  "remove_commas s = filter (\<lambda>c. c \<noteq> CHR '','') s"

text \<open>\<open>sep.join(parts)\<close>.\<close>

fun join :: "string \<Rightarrow> string list \<Rightarrow> string" where
  "join sep [] = []"
| "join sep [x] = x"
| "join sep (x # y # ys) = x @ sep @ join sep (y # ys)"

text \<open>Decimal rendering of a natural number, as \<open>str(n)\<close> and the \<open>%d\<close>-style fields do.\<close>

definition digit_char :: "nat \<Rightarrow> char" where
  "digit_char n = ''0123456789'' ! n"

fun show_nat :: "nat \<Rightarrow> string" where
  "show_nat n = (if n < 10 then [digit_char n] else show_nat (n div 10) @ [digit_char (n mod 10)])"

declare show_nat.simps [simp del]

definition zfill :: "nat \<Rightarrow> string \<Rightarrow> string" where
  "zfill w s = replicate (w - length s) (CHR ''0'') @ s"

section \<open>The clock and \<open>strftime\<close>\<close>

text \<open>
  \<open>datetime.now()\<close> is a parameter of the model: one reading of the clock for the
  whole run.
  \<open>strftime\<close> is interpreted for the directives the program uses, in the C locale:
  \<open>%d\<close> and \<open>%m\<close> are two digits, \<open>%Y\<close> is the year padded to four digits, \<open>%b\<close>
  and \<open>%B\<close> are the abbreviated and the full English month name.
\<close>

record datetime =
  year :: nat
  month :: nat
  day :: nat
  hour :: nat
  minute :: nat
  second :: nat

definition month_names :: "string list" where
  "month_names = [''January'', ''February'', ''March'', ''April'', ''May'', ''June'',
     ''July'', ''August'', ''September'', ''October'', ''November'', ''December'']"

definition month_name :: "nat \<Rightarrow> string" where
  "month_name m = (if 1 \<le> m \<and> m \<le> 12 then month_names ! (m - 1) else [])"

definition month_abbr :: "nat \<Rightarrow> string" where
  "month_abbr m = take 3 (month_name m)"

definition directive :: "char \<Rightarrow> datetime \<Rightarrow> string" where
  "directive c t =
    (if c = CHR ''d'' then zfill 2 (show_nat (day t))
     else if c = CHR ''m'' then zfill 2 (show_nat (month t))
     else if c = CHR ''Y'' then zfill 4 (show_nat (year t))
     else if c = CHR ''b'' then month_abbr (month t)
     else if c = CHR ''B'' then month_name (month t)
     else [CHR ''%'', c])"

fun strftime :: "string \<Rightarrow> datetime \<Rightarrow> string" where
  "strftime [] t = []"
| "strftime [c] t = [c]"
| "strftime (c # d # fs) t =
     (if c = CHR ''%'' then directive d t @ strftime fs t else c # strftime (d # fs) t)"

text \<open>\<open>get_current_date_str\<close>: the dictionary of renderings, one selector per key.\<close>

record current_date_str =
  dd_mm_yyyy :: string
  yyyy_mm_dd :: string
  dd_slash_mm_slash_yyyy :: string
  mm_slash_dd_slash_yyyy :: string
  dd_mmm_yyyy :: string
  dd_space_mmm_space_yyyy :: string

definition get_current_date_str :: "datetime \<Rightarrow> current_date_str" where
  "get_current_date_str today = \<lparr>
     dd_mm_yyyy = strftime ''%d-%m-%Y'' today,
     yyyy_mm_dd = strftime ''%Y-%m-%d'' today,
     dd_slash_mm_slash_yyyy = strftime ''%d/%m/%Y'' today,
     mm_slash_dd_slash_yyyy = strftime ''%m/%d/%Y'' today,
     dd_mmm_yyyy = strftime ''%d-%b-%Y'' today,
     dd_space_mmm_space_yyyy = strftime ''%d %b %Y'' today \<rparr>"

section \<open>\<open>is_today_date\<close>\<close>

definition today_formats :: "datetime \<Rightarrow> string list" where
  "today_formats today =
    [strftime ''%d-%m-%Y'' today,
     strftime ''%Y-%m-%d'' today,
     strftime ''%d/%m/%Y'' today,
     strftime ''%m/%d/%Y'' today,
     strftime ''%d-%b-%Y'' today,
     strftime ''%d %b %Y'' today,
     strftime ''%d %B %Y'' today]"

definition is_today_date :: "datetime \<Rightarrow> string \<Rightarrow> bool" where
  "is_today_date today date_text =
    (if date_text = [] then False
     else (let cleaned_date = remove_commas (strip date_text)
           in list_ex (\<lambda>fmt. sublist fmt cleaned_date) (today_formats today)))"

text \<open>
  The Date Normalizer as the specification words it: the seven renderings written out
  field by field, and the test on the cleaned text.
\<close>

definition DD :: "datetime \<Rightarrow> string" where "DD t = zfill 2 (show_nat (day t))"
definition MM :: "datetime \<Rightarrow> string" where "MM t = zfill 2 (show_nat (month t))"
definition YYYY :: "datetime \<Rightarrow> string" where "YYYY t = zfill 4 (show_nat (year t))"
definition Mon :: "datetime \<Rightarrow> string" where "Mon t = month_abbr (month t)"
definition Month :: "datetime \<Rightarrow> string" where "Month t = month_name (month t)"

definition todayVariants :: "datetime \<Rightarrow> string list" where
  "todayVariants t =
    [DD t @ ''-'' @ MM t @ ''-'' @ YYYY t,
     YYYY t @ ''-'' @ MM t @ ''-'' @ DD t,
     DD t @ ''/'' @ MM t @ ''/'' @ YYYY t,
     MM t @ ''/'' @ DD t @ ''/'' @ YYYY t,
     DD t @ ''-'' @ Mon t @ ''-'' @ YYYY t,
     DD t @ '' '' @ Mon t @ '' '' @ YYYY t,
     DD t @ '' '' @ Month t @ '' '' @ YYYY t]"

definition isToday :: "datetime \<Rightarrow> string \<Rightarrow> bool" where
  "isToday t text =
    (if text = [] \<or> list_all isspace text then False
     else (\<exists>v \<in> set (todayVariants t). sublist v (remove_commas (strip text))))"

text \<open>
  A date literal, for the proofs about \<^const>\<open>is_today_date\<close>: a non-empty text without
  commas that neither starts nor ends with white space.
\<close>

definition date_literal :: "string \<Rightarrow> bool" where
  "date_literal v = (v \<noteq> [] \<and> \<not> isspace (hd v) \<and> \<not> isspace (last v) \<and> CHR '','' \<notin> set v)"

text \<open>The date used in the worked examples.\<close>

definition d0 :: datetime where
  "d0 = \<lparr>year = 2026, month = 11, day = 4, hour = 9, minute = 30, second = 0\<rparr>"

text \<open>\<open>datetime.isoformat()\<close>, to the second.\<close>

definition isoformat :: "datetime \<Rightarrow> string" where
  "isoformat t = zfill 4 (show_nat (year t)) @ ''-'' @ zfill 2 (show_nat (month t)) @ ''-''
     @ zfill 2 (show_nat (day t)) @ ''T'' @ zfill 2 (show_nat (hour t)) @ '':''
     @ zfill 2 (show_nat (minute t)) @ '':'' @ zfill 2 (show_nat (second t))"

section \<open>Alerts and the report\<close>

text \<open>An alert is the dictionary with the keys \<open>agency\<close>, \<open>company\<close>, \<open>date\<close>, \<open>action\<close>
  and \<open>timestamp\<close> that every scraper appends.\<close>

record alert =
  agency :: string
  company :: string
  date :: string
  action :: string
  timestamp :: string

text \<open>
  \<open>by_agency\<close> is a Python dictionary, which keeps its keys in insertion order: an
  association list. \<open>append_to\<close> is the loop body
  \<open>if agency not in by_agency: by_agency[agency] = []; by_agency[agency].append(alert)\<close>.
\<close>

fun append_to :: "string \<Rightarrow> alert \<Rightarrow> (string \<times> alert list) list \<Rightarrow> (string \<times> alert list) list" where
  "append_to k a [] = [(k, [a])]"
| "append_to k a ((k', as) # d) =
     (if k' = k then (k', as @ [a]) # d else (k', as) # append_to k a d)"

definition by_agency :: "alert list \<Rightarrow> (string \<times> alert list) list" where
  "by_agency alerts = foldl (\<lambda>d a. append_to (agency a) a d) [] alerts"

definition newline :: string where
  "newline = [char_of (10 :: nat)]"

definition report_header :: "datetime \<Rightarrow> string list" where
  "report_header now =
    [replicate 60 (CHR ''=''),
     ''RATING AGENCY ALERTS - '' @ strftime ''%d %B %Y'' now,
     replicate 60 (CHR ''=''),
     '''']"

definition report_alert :: "alert \<Rightarrow> string list" where
  "report_alert a =
    [''Company: '' @ company a, ''Date: '' @ date a, ''Action: '' @ action a, '''']"

definition report_agency :: "string \<times> alert list \<Rightarrow> string list" where
  "report_agency g = (case g of (agency_name, agency_alerts) \<Rightarrow>
     [agency_name @ '' ('' @ show_nat (length agency_alerts) @ '' alerts):'', replicate 30 (CHR ''-'')]
     @ concat (map report_alert agency_alerts) @ [''''])"

definition generate_alert_report :: "datetime \<Rightarrow> alert list \<Rightarrow> string" where
  "generate_alert_report now alerts =
    (if alerts = [] then ''No alerts found for today.''
     else join newline (report_header now @ concat (map report_agency (by_agency alerts))))"

text \<open>The sources of a sequence of alerts in first-seen order, as the specification has it.\<close>

definition first_seen :: "'a list \<Rightarrow> 'a list" where
  "first_seen xs = rev (remdups (rev xs))"

text \<open>Three alerts from two sources, for the worked example of the report.\<close>

definition alert_of :: "string \<Rightarrow> string \<Rightarrow> string \<Rightarrow> string \<Rightarrow> alert" where
  "alert_of ag co dt ac = \<lparr>agency = ag, company = co, date = dt, action = ac, timestamp = isoformat d0\<rparr>"

definition example_alerts :: "alert list" where
  "example_alerts =
    [alert_of ''ICRA'' ''Acme Finance'' ''04/11/2026'' ''Upgraded'',
     alert_of ''SEBI'' ''SEBI Announcement'' ''04 Nov 2026'' ''Circular'',
     alert_of ''ICRA'' ''Bharat Leasing'' ''04/11/2026'' ''Reaffirmed'']"

section \<open>Parsed pages\<close>

text \<open>
  A page parsed by BeautifulSoup is a tree: a tag has a name, possibly a \<open>class\<close>
  attribute (the list of its white-space separated values) and children; a text node
  is a \<open>NavigableString\<close>. The strings of the other classes of the parser, which
  derive from \<open>NavigableString\<close>, are the \<open>SpecialString\<close>s: a comment, a CDATA section,
  a processing instruction, a declaration, a doctype, and the text inside \<open>script\<close>,
  \<open>style\<close>, \<open>template\<close>, \<open>rt\<close> and \<open>rp\<close> elements. Other attributes play no role in
  the program.
\<close>

datatype string_kind = Comment | CData | ProcessingInstruction | Declaration | Doctype
  | Script | Stylesheet | TemplateString | RubyTextString | RubyParenthesisString

datatype node =
    Tag (tag_name: string) (class_attr: "string list option") (contents: "node list")
  | NavigableString string
  | SpecialString string_kind string

text \<open>The characters of a string node.\<close>

fun string_text :: "node \<Rightarrow> string" where
  "string_text (NavigableString s) = s"
| "string_text (SpecialString k s) = s"
| "string_text (Tag n c kids) = []"



text \<open>\<open>element.descendants\<close>: every node below the element, in document order.\<close>

fun descendants :: "node \<Rightarrow> node list" where
  "descendants (NavigableString s) = []"
| "descendants (SpecialString k s) = []"
| "descendants (Tag n c kids) = concat (map (\<lambda>k. k # descendants k) kids)"

text \<open>\<open>find\<close> returns the first descendant that matches, \<open>find_all\<close> all of them.\<close>

definition find_first :: "(node \<Rightarrow> bool) \<Rightarrow> node \<Rightarrow> node option" where
  "find_first P element = List.find P (descendants element)"

definition find_all :: "(node \<Rightarrow> bool) \<Rightarrow> node \<Rightarrow> node list" where
  "find_all P element = filter P (descendants element)"

text \<open>\<open>find_all('tr')\<close> and \<open>find_all('div', class_=...)\<close>: a tag matches a name, and a
  class filter given as strings when one of its class values, or the values joined by a
  blank, is one of the strings.\<close>

definition is_tag :: "string \<Rightarrow> node \<Rightarrow> bool" where
  "is_tag nm n = (case n of Tag t c kids \<Rightarrow> t = nm | NavigableString s \<Rightarrow> False
     | SpecialString k s \<Rightarrow> False)"

definition has_class :: "string list \<Rightarrow> node \<Rightarrow> bool" where
  "has_class wanted n = (case n of
       Tag t (Some cls) kids \<Rightarrow> list_ex (\<lambda>w. w \<in> set cls \<or> join '' '' cls = w) wanted
     | Tag t None kids \<Rightarrow> False
     | NavigableString s \<Rightarrow> False
     | SpecialString k s \<Rightarrow> False)"

text \<open>\<open>tag.string\<close>: the string node that is the only child of a tag, or the
  \<open>string\<close> of the tag that is its only child; otherwise \<open>None\<close>.\<close>

fun tag_string :: "node \<Rightarrow> node option" where
  "tag_string (NavigableString s) = Some (NavigableString s)"
| "tag_string (SpecialString k s) = Some (SpecialString k s)"
| "tag_string (Tag n c []) = None"
| "tag_string (Tag n c [k]) = tag_string k"
| "tag_string (Tag n c (k # k' # ks)) = None"

text \<open>
  \<open>get_text(strip=True)\<close> on a tag: the interesting strings below it, each stripped,
  the empty ones dropped, concatenated. Which strings are interesting depends on the tag
  the text is asked of: for \<open>script\<close>, \<open>style\<close>, \<open>template\<close>, \<open>rt\<close> and \<open>rp\<close> the
  strings of the class that the parser gives to the text of such a tag, for every other
  tag the strings that are exactly a \<open>NavigableString\<close> or a CDATA section. So the text
  of a table cell leaves out the comments and the scripts in it.
\<close>

definition container_kind :: "string \<Rightarrow> string_kind option" where
  "container_kind t =
    (if t = ''script'' then Some Script
     else if t = ''style'' then Some Stylesheet
     else if t = ''template'' then Some TemplateString
     else if t = ''rt'' then Some RubyTextString
     else if t = ''rp'' then Some RubyParenthesisString
     else None)"

definition interesting :: "string \<Rightarrow> node \<Rightarrow> bool" where
  "interesting t n = (case n of
       Tag u c kids \<Rightarrow> False
     | NavigableString s \<Rightarrow> container_kind t = None
     | SpecialString k s \<Rightarrow>
         (case container_kind t of None \<Rightarrow> k = CData | Some k' \<Rightarrow> k = k'))"

definition get_text_strip :: "node \<Rightarrow> string" where
  "get_text_strip n = concat (filter (\<lambda>s. s \<noteq> [])
     (map (\<lambda>d. strip (string_text d)) (filter (interesting (tag_name n)) (descendants n))))"

section \<open>\<open>extract_text_from_element\<close>\<close>

text \<open>
  The exceptions of the model are the classes below; all of them derive from
  \<open>Exception\<close>, so \<open>except Exception\<close> catches each. A call returns \<open>Inl\<close> of the
  exception it raises or \<open>Inr\<close> of its value.
\<close>

datatype exn = NoSuchElementException | TimeoutException | WebDriverException
  | UnboundLocalError | OtherException

text \<open>
  The three library lookups of the function, each followed by the text extraction of the
  \<open>return\<close> under it, are fallible operations on the element:
  \<open>find(class_=f)\<close> then \<open>get_text(strip=True)\<close>; \<open>find(string=f)\<close> then \<open>strip()\<close>;
  \<open>find(tag, string=f)\<close> then \<open>get_text(strip=True)\<close>. \<open>None\<close> is "nothing found".
\<close>

record 'e lookup =
  by_class :: "'e \<Rightarrow> string \<Rightarrow> exn + string option"
  by_string :: "'e \<Rightarrow> string \<Rightarrow> exn + string option"
  by_tag_string :: "'e \<Rightarrow> string \<Rightarrow> string \<Rightarrow> exn + string option"

text \<open>The loop \<open>for tag in ['span', 'div', 'td', 'p', 'a']\<close>.\<close>

fun try_tags :: "'e lookup \<Rightarrow> 'e \<Rightarrow> string \<Rightarrow> string list \<Rightarrow> exn + string option" where
  "try_tags L element selector [] = Inr None"
| "try_tags L element selector (tag # tags) =
    (case by_tag_string L element tag selector of
       Inl e \<Rightarrow> Inl e
     | Inr (Some t) \<Rightarrow> Inr (Some t)
     | Inr None \<Rightarrow> try_tags L element selector tags)"

text \<open>The body of the \<open>try\<close>: \<open>Some\<close> text when it returns, \<open>None\<close> when it falls through.\<close>

definition try_selector :: "'e lookup \<Rightarrow> 'e \<Rightarrow> string \<Rightarrow> exn + string option" where
  "try_selector L element selector =
    (case by_class L element selector of
       Inl e \<Rightarrow> Inl e
     | Inr (Some t) \<Rightarrow> Inr (Some t)
     | Inr None \<Rightarrow>
        (case by_string L element selector of
           Inl e \<Rightarrow> Inl e
         | Inr (Some t) \<Rightarrow> Inr (Some t)
         | Inr None \<Rightarrow> try_tags L element selector [''span'', ''div'', ''td'', ''p'', ''a'']))"

fun extract_text_from_element :: "'e lookup \<Rightarrow> 'e \<Rightarrow> string list \<Rightarrow> exn + string" where
  "extract_text_from_element L element [] = Inr ''''"
| "extract_text_from_element L element (selector # selectors) =
    (case try_selector L element selector of
       Inl e \<Rightarrow> extract_text_from_element L element selectors
     | Inr (Some t) \<Rightarrow> Inr t
     | Inr None \<Rightarrow> extract_text_from_element L element selectors)"

text \<open>
  BeautifulSoup's lookups on a parsed tree. The filter \<open>lambda x: x and selector in x.lower()\<close>
  is \<open>selector_in_lower\<close>; on a missing attribute (\<open>None\<close>) it is false. A function given
  as the \<open>class_\<close> filter is tried on each class value and then on the values joined by a
  blank; a function given as \<open>string\<close> alone is tried on the string nodes of every
  class, and together with a tag name on the \<open>string\<close> of the tags of that name.
\<close>

definition selector_in_lower :: "string \<Rightarrow> string \<Rightarrow> bool" where
  "selector_in_lower selector x = (x \<noteq> [] \<and> sublist selector (lower x))"

definition matches_class :: "string \<Rightarrow> node \<Rightarrow> bool" where
  "matches_class selector n = (case n of
       Tag t (Some cls) kids \<Rightarrow>
         list_ex (selector_in_lower selector) cls \<or> selector_in_lower selector (join '' '' cls)
     | Tag t None kids \<Rightarrow> False
     | NavigableString s \<Rightarrow> False
     | SpecialString k s \<Rightarrow> False)"

definition matches_string :: "string \<Rightarrow> node \<Rightarrow> bool" where
  "matches_string selector n = (case n of
       Tag t c kids \<Rightarrow> False
     | NavigableString s \<Rightarrow> selector_in_lower selector s
     | SpecialString k s \<Rightarrow> selector_in_lower selector s)"

definition matches_tag_string :: "string \<Rightarrow> string \<Rightarrow> node \<Rightarrow> bool" where
  "matches_tag_string tag selector n = (case n of
       Tag t c kids \<Rightarrow> t = tag \<and>
         (case tag_string n of None \<Rightarrow> False
          | Some found \<Rightarrow> selector_in_lower selector (string_text found))
     | NavigableString s \<Rightarrow> False
     | SpecialString k s \<Rightarrow> False)"

definition bs4 :: "node lookup" where
  "bs4 = \<lparr>
     by_class = (\<lambda>element selector.
       Inr (map_option get_text_strip (find_first (matches_class selector) element))),
     by_string = (\<lambda>element selector.
       Inr (map_option (\<lambda>found. strip (string_text found)) (find_first (matches_string selector) element))),
     by_tag_string = (\<lambda>element tag selector.
       Inr (map_option get_text_strip (find_first (matches_tag_string tag selector) element))) \<rparr>"

text \<open>
  The Field Extractor as the specification words it: a prioritized list of three matchers,
  tried per hint in fixed order, the first match returned. (1) A descendant element whose
  class attribute contains the hint, matched case-insensitively. (2) A descendant text
  node containing the hint. (3) A descendant element of tag kind span, div, td, p or a
  whose text, the text node that is all it holds, contains the hint. The text returned for
  an element is its trimmed text, for a text node the node trimmed.

  The second matcher has two parameters: which nodes count as text nodes, and how the
  hint is looked for. \<open>claimedExtractor\<close> takes the text nodes proper and the hint as it
  is written; \<open>fieldExtractor\<close> takes the string nodes of every class and ignores case.
\<close>

definition contains :: "string \<Rightarrow> string \<Rightarrow> bool" where
  "contains hay hint = sublist hint hay"









text \<open>A lookup that raises on every call, and four rows: a cell with a class, a cell with
  an empty class and two texts, a cell whose text has a capital, a cell with a comment.\<close>

definition raising :: "unit lookup" where
  "raising = \<lparr> by_class = (\<lambda>element selector. Inl OtherException),
     by_string = (\<lambda>element selector. Inl OtherException),
     by_tag_string = (\<lambda>element tag selector. Inl OtherException) \<rparr>"






section \<open>The browser session\<close>

text \<open>
  The browser is outside the program: its behaviour is a parameter. The state of the
  browser and of the sites it shows is a value of a type \<open>'w\<close>; an element handle is a
  value of a type \<open>'h\<close>. Every call of the WebDriver takes the state, returns the new one,
  and returns a value or raises. \<open>page_source\<close> is modelled together with its parse by
  BeautifulSoup. \<open>time.sleep\<close> lets the state evolve (pages load while the program waits).
\<close>

datatype locator = ById string | ByName string | ByXPath string | ByClassName string
  | ByTagName string

record ('w, 'h) webdriver =
  drv_get :: "string \<Rightarrow> 'w \<Rightarrow> (exn + unit) \<times> 'w"
  drv_find_element :: "locator \<Rightarrow> 'w \<Rightarrow> (exn + 'h) \<times> 'w"
  drv_find_elements :: "'h \<Rightarrow> locator \<Rightarrow> 'w \<Rightarrow> (exn + 'h list) \<times> 'w"
  drv_clear :: "'h \<Rightarrow> 'w \<Rightarrow> (exn + unit) \<times> 'w"
  drv_send_keys :: "'h \<Rightarrow> string \<Rightarrow> 'w \<Rightarrow> (exn + unit) \<times> 'w"
  drv_click :: "'h \<Rightarrow> 'w \<Rightarrow> (exn + unit) \<times> 'w"
  drv_is_enabled :: "'h \<Rightarrow> 'w \<Rightarrow> (exn + bool) \<times> 'w"
  drv_is_displayed :: "'h \<Rightarrow> 'w \<Rightarrow> (exn + bool) \<times> 'w"
  drv_text :: "'h \<Rightarrow> 'w \<Rightarrow> (exn + string) \<times> 'w"
  drv_page_source :: "'w \<Rightarrow> (exn + node) \<times> 'w"
  drv_execute_script :: "string \<Rightarrow> 'w \<Rightarrow> (exn + int) \<times> 'w"
  drv_wait_until_presence :: "locator \<Rightarrow> 'w \<Rightarrow> (exn + 'h) \<times> 'w"

text \<open>
  The system: \<open>self.driver\<close>, which is \<open>None\<close> when \<open>setup_selenium\<close> failed, and the
  passage of time.
\<close>

record ('w, 'h) system =
  driver :: "('w, 'h) webdriver option"
  passage :: "nat \<Rightarrow> 'w \<Rightarrow> 'w"

text \<open>
  The state the program runs in: the state of the browser and the record of the calls
  made so far, a snapshot and a script with what they returned.
\<close>

datatype call = Get string | FindElement locator | FindElements locator | Clear
  | SendKeys string | Click | IsEnabled | IsDisplayed | Text | PageSource "node option"
  | ExecuteScript string "int option" | WaitUntil locator | Sleep nat

record 'w session =
  world :: 'w
  calls :: "call list"

type_synonym ('a, 'w) action = "'w session \<Rightarrow> (exn + 'a) \<times> 'w session"

definition perform :: "call \<Rightarrow> ('w \<Rightarrow> (exn + 'a) \<times> 'w) \<Rightarrow> ('a, 'w) action" where
  "perform c op s = (case op (world s) of (r, w') \<Rightarrow> (r, \<lparr>world = w', calls = calls s @ [c]\<rparr>))"

definition driver_get :: "('w, 'h) webdriver \<Rightarrow> string \<Rightarrow> (unit, 'w) action" where
  "driver_get drv url = perform (Get url) (drv_get drv url)"

definition find_element :: "('w, 'h) webdriver \<Rightarrow> locator \<Rightarrow> ('h, 'w) action" where
  "find_element drv loc = perform (FindElement loc) (drv_find_element drv loc)"

definition find_elements :: "('w, 'h) webdriver \<Rightarrow> 'h \<Rightarrow> locator \<Rightarrow> ('h list, 'w) action" where
  "find_elements drv h loc = perform (FindElements loc) (drv_find_elements drv h loc)"

definition clear :: "('w, 'h) webdriver \<Rightarrow> 'h \<Rightarrow> (unit, 'w) action" where
  "clear drv h = perform Clear (drv_clear drv h)"

definition send_keys :: "('w, 'h) webdriver \<Rightarrow> 'h \<Rightarrow> string \<Rightarrow> (unit, 'w) action" where
  "send_keys drv h keys = perform (SendKeys keys) (drv_send_keys drv h keys)"

definition click :: "('w, 'h) webdriver \<Rightarrow> 'h \<Rightarrow> (unit, 'w) action" where
  "click drv h = perform Click (drv_click drv h)"

definition is_enabled :: "('w, 'h) webdriver \<Rightarrow> 'h \<Rightarrow> (bool, 'w) action" where
  "is_enabled drv h = perform IsEnabled (drv_is_enabled drv h)"

definition is_displayed :: "('w, 'h) webdriver \<Rightarrow> 'h \<Rightarrow> (bool, 'w) action" where
  "is_displayed drv h = perform IsDisplayed (drv_is_displayed drv h)"

definition element_text :: "('w, 'h) webdriver \<Rightarrow> 'h \<Rightarrow> (string, 'w) action" where
  "element_text drv h = perform Text (drv_text drv h)"

definition wait_until_presence :: "('w, 'h) webdriver \<Rightarrow> locator \<Rightarrow> ('h, 'w) action" where
  "wait_until_presence drv loc = perform (WaitUntil loc) (drv_wait_until_presence drv loc)"

definition page_source :: "('w, 'h) webdriver \<Rightarrow> (node, 'w) action" where
  "page_source drv s = (case drv_page_source drv (world s) of (r, w') \<Rightarrow>
     (r, \<lparr>world = w', calls = calls s @ [PageSource (case r of Inl e \<Rightarrow> None | Inr soup \<Rightarrow> Some soup)]\<rparr>))"

definition execute_script :: "('w, 'h) webdriver \<Rightarrow> string \<Rightarrow> (int, 'w) action" where
  "execute_script drv script s = (case drv_execute_script drv script (world s) of (r, w') \<Rightarrow>
     (r, \<lparr>world = w', calls = calls s @ [ExecuteScript script (case r of Inl e \<Rightarrow> None | Inr v \<Rightarrow> Some v)]\<rparr>))"

definition sleep :: "('w, 'h) system \<Rightarrow> nat \<Rightarrow> 'w session \<Rightarrow> 'w session" where
  "sleep sys n s = \<lparr>world = passage sys n (world s), calls = calls s @ [Sleep n]\<rparr>"

text \<open>Sequencing: an exception ends the sequence. The two handlers of the program.\<close>

definition bindE :: "('a, 'w) action \<Rightarrow> ('a \<Rightarrow> ('b, 'w) action) \<Rightarrow> ('b, 'w) action" where
  "bindE m f s = (case m s of (Inl e, s') \<Rightarrow> (Inl e, s') | (Inr x, s') \<Rightarrow> f x s')"

definition returnE :: "'a \<Rightarrow> ('a, 'w) action" where
  "returnE x s = (Inr x, s)"

definition sleepE :: "('w, 'h) system \<Rightarrow> nat \<Rightarrow> (unit, 'w) action" where
  "sleepE sys n s = (Inr (), sleep sys n s)"

text \<open>\<open>try: m except E: handler\<close> for one exception class \<open>E\<close>.\<close>

definition except :: "exn \<Rightarrow> ('a, 'w) action \<Rightarrow> ('a, 'w) action \<Rightarrow> ('a, 'w) action" where
  "except E m handler s = (case m s of
       (Inl e, s') \<Rightarrow> (if e = E then handler s' else (Inl e, s'))
     | (Inr x, s') \<Rightarrow> (Inr x, s'))"

text \<open>The calls made between two states, and the snapshots among them.\<close>

definition new_calls :: "'w session \<Rightarrow> 'w session \<Rightarrow> call list" where
  "new_calls s s' = drop (length (calls s)) (calls s')"

fun snapshots :: "call list \<Rightarrow> node list" where
  "snapshots [] = []"
| "snapshots (PageSource (Some soup) # cs) = soup # snapshots cs"
| "snapshots (c # cs) = snapshots cs"

section \<open>The source adapters\<close>

text \<open>
  Logging is not modelled, and with it the page counters that only feed log messages.
  \<open>for row in rows: try: ... except Exception: warn\<close> folds the rows over the list of
  alerts; a row that raises leaves the list as it was.
\<close>

definition new_alert :: "string \<Rightarrow> string \<Rightarrow> string \<Rightarrow> string \<Rightarrow> datetime \<Rightarrow> alert" where
  "new_alert ag co dt ac now =
     \<lparr>agency = ag, company = co, date = dt, action = ac, timestamp = isoformat now\<rparr>"

definition for_each :: "('r \<Rightarrow> 'acc \<Rightarrow> 'acc) \<Rightarrow> 'r list \<Rightarrow> 'acc \<Rightarrow> 'acc" where
  "for_each body rows acc = foldl (\<lambda>a row. body row a) acc rows"

subsection \<open>Rows addressed by hints (ICRA, CareEdge, CRISIL)\<close>

definition hinted_item ::
  "string \<Rightarrow> string list \<Rightarrow> string list \<Rightarrow> string list \<Rightarrow> datetime \<Rightarrow> node \<Rightarrow> alert list \<Rightarrow> alert list" where
  "hinted_item ag company_hints date_hints action_hints today item alerts =
    (case extract_text_from_element bs4 item company_hints of
       Inl e \<Rightarrow> alerts
     | Inr company_name \<Rightarrow>
    (case extract_text_from_element bs4 item date_hints of
       Inl e \<Rightarrow> alerts
     | Inr rating_date \<Rightarrow>
    (case extract_text_from_element bs4 item action_hints of
       Inl e \<Rightarrow> alerts
     | Inr rating_action \<Rightarrow>
        if company_name \<noteq> [] \<and> is_today_date today rating_date
        then alerts @ [new_alert ag company_name rating_date rating_action today]
        else alerts)))"

definition icra_row :: "datetime \<Rightarrow> node \<Rightarrow> alert list \<Rightarrow> alert list" where
  "icra_row = hinted_item ''ICRA'' [''company'', ''entity'', ''name''] [''date'', ''rated-on'']
     [''action'', ''rating'', ''grade'']"

definition icra_rating_rows :: "node \<Rightarrow> node list" where
  "icra_rating_rows soup =
    (let rows = find_all (\<lambda>n. is_tag ''tr'' n \<and> has_class [''gridrow''] n) soup
     in if rows \<noteq> [] then rows
        else find_all (\<lambda>n. is_tag ''div'' n \<and> has_class [''rating-item''] n) soup)"

definition icra_page :: "datetime \<Rightarrow> node \<Rightarrow> alert list \<Rightarrow> alert list" where
  "icra_page today soup alerts = for_each (icra_row today) (icra_rating_rows soup) alerts"

definition careedge_item :: "datetime \<Rightarrow> node \<Rightarrow> alert list \<Rightarrow> alert list" where
  "careedge_item = hinted_item ''CareEdge'' [''company'', ''entity'', ''name'']
     [''date'', ''rated-on'', ''timestamp''] [''action'', ''rating'', ''grade'']"

definition careedge_rating_items :: "node \<Rightarrow> node list" where
  "careedge_rating_items soup = find_all (\<lambda>n. is_tag ''div'' n
     \<and> has_class [''rating-item'', ''rating-card'', ''recent-rating-item''] n) soup"

definition careedge_page :: "datetime \<Rightarrow> node \<Rightarrow> alert list \<Rightarrow> alert list" where
  "careedge_page today soup alerts = for_each (careedge_item today) (careedge_rating_items soup) alerts"

definition crisil_item :: "datetime \<Rightarrow> node \<Rightarrow> alert list \<Rightarrow> alert list" where
  "crisil_item = hinted_item ''CRISIL'' [''company'', ''entity'', ''name'', ''title'']
     [''date'', ''rated-on'', ''timestamp''] [''action'', ''rating'', ''grade'', ''description'']"

definition crisil_rating_items :: "node \<Rightarrow> node list" where
  "crisil_rating_items soup = find_all (\<lambda>n. is_tag ''div'' n
     \<and> has_class [''rating-item'', ''rating-card'', ''announcement-item''] n) soup"

definition crisil_page :: "datetime \<Rightarrow> node \<Rightarrow> alert list \<Rightarrow> alert list" where
  "crisil_page today soup alerts = for_each (crisil_item today) (crisil_rating_items soup) alerts"

subsection \<open>Rows addressed by cell position (Acuite, BSE, SEBI)\<close>

definition cells_of :: "node \<Rightarrow> node list" where
  "cells_of row = find_all (is_tag ''td'') row"

text \<open>\<open>soup.find_all('tr')[1:]\<close>.\<close>

definition table_rows :: "node \<Rightarrow> node list" where
  "table_rows soup = drop 1 (find_all (is_tag ''tr'') soup)"

definition acuite_row :: "datetime \<Rightarrow> node \<Rightarrow> alert list \<Rightarrow> alert list" where
  "acuite_row today row alerts =
    (let cells = cells_of row in
     if length cells \<ge> 3 then
       (let rating_date = (if cells \<noteq> [] then get_text_strip (cells ! 0) else '''');
            company_name = (if length cells > 1 then get_text_strip (cells ! 1) else '''');
            rating_action = (if length cells > 2 then get_text_strip (cells ! 2) else '''')
        in if company_name \<noteq> [] \<and> is_today_date today rating_date
           then alerts @ [new_alert ''Acuite'' company_name rating_date rating_action today]
           else alerts)
     else alerts)"

definition acuite_page :: "datetime \<Rightarrow> node \<Rightarrow> alert list \<Rightarrow> alert list" where
  "acuite_page today soup alerts = for_each (acuite_row today) (table_rows soup) alerts"

definition bse_row :: "string \<Rightarrow> string \<Rightarrow> datetime \<Rightarrow> node \<Rightarrow> alert list \<Rightarrow> alert list" where
  "bse_row segment current_date today row alerts =
    (let cells = cells_of row in
     if length cells \<ge> 3 then
       (let company_name = (if length cells > 1 then get_text_strip (cells ! 1) else '''');
            subject = (if length cells > 2 then get_text_strip (cells ! 2) else '''')
        in if company_name \<noteq> []
           then alerts @ [new_alert (''BSE ('' @ segment @ '')'') company_name current_date subject today]
           else alerts)
     else alerts)"

definition bse_page :: "string \<Rightarrow> string \<Rightarrow> datetime \<Rightarrow> node \<Rightarrow> alert list \<Rightarrow> alert list" where
  "bse_page segment current_date today soup alerts =
     for_each (bse_row segment current_date today) (table_rows soup) alerts"

definition sebi_row :: "datetime \<Rightarrow> node \<Rightarrow> alert list \<Rightarrow> alert list" where
  "sebi_row today row alerts =
    (let cells = cells_of row in
     if length cells \<ge> 2 then
       (let date_text = (if cells \<noteq> [] then get_text_strip (cells ! 0) else '''');
            announcement_text = (if length cells > 1 then get_text_strip (cells ! 1) else '''')
        in if announcement_text \<noteq> [] \<and> is_today_date today date_text
           then alerts @ [new_alert ''SEBI'' ''SEBI Announcement'' date_text announcement_text today]
           else alerts)
     else alerts)"

definition sebi_page :: "datetime \<Rightarrow> node \<Rightarrow> alert list \<Rightarrow> alert list" where
  "sebi_page today soup alerts = for_each (sebi_row today) (table_rows soup) alerts"

subsection \<open>The rows of NSE\<close>

text \<open>
  \<open>company_name\<close>, \<open>subject\<close> and \<open>date_text\<close> are local variables of
  \<open>scrape_nse_announcements\<close>: unbound until first assigned, and then bound for the rest
  of the call, across rows and across segments. Reading an unbound one raises
  \<open>UnboundLocalError\<close>, which the handler of the row catches.
\<close>

record nse_locals =
  v_company_name :: "string option"
  v_subject :: "string option"
  v_date_text :: "string option"

definition unbound :: nse_locals where
  "unbound = \<lparr>v_company_name = None, v_subject = None, v_date_text = None\<rparr>"

definition read_local :: "string option \<Rightarrow> exn + string" where
  "read_local v = (case v of None \<Rightarrow> Inl UnboundLocalError | Some x \<Rightarrow> Inr x)"

text \<open>The assignments at the head of the \<open>try\<close>: the locals after them, and whether they
  raised.\<close>

definition nse_assign :: "node \<Rightarrow> nse_locals \<Rightarrow> (exn + unit) \<times> nse_locals" where
  "nse_assign row vars =
    (if tag_name row = ''tr'' then
       (let cells = cells_of row in
        if length cells \<ge> 3 then
          (Inr (), \<lparr>v_company_name = Some (if length cells > 1 then get_text_strip (cells ! 1) else ''''),
                    v_subject = Some (if length cells > 2 then get_text_strip (cells ! 2) else ''''),
                    v_date_text = Some (if cells \<noteq> [] then get_text_strip (cells ! 0) else '''')\<rparr>)
        else (Inr (), vars))
     else
       (case extract_text_from_element bs4 row [''company'', ''symbol''] of
          Inl e \<Rightarrow> (Inl e, vars)
        | Inr c \<Rightarrow>
       (case extract_text_from_element bs4 row [''subject'', ''title''] of
          Inl e \<Rightarrow> (Inl e, vars\<lparr>v_company_name := Some c\<rparr>)
        | Inr sj \<Rightarrow>
       (case extract_text_from_element bs4 row [''date'', ''time''] of
          Inl e \<Rightarrow> (Inl e, vars\<lparr>v_company_name := Some c, v_subject := Some sj\<rparr>)
        | Inr d \<Rightarrow> (Inr (), \<lparr>v_company_name = Some c, v_subject = Some sj, v_date_text = Some d\<rparr>)))))"

text \<open>The test and the \<open>append\<close>, reading the locals in the order the program does.\<close>

definition nse_emit :: "string \<Rightarrow> datetime \<Rightarrow> nse_locals \<Rightarrow> alert list \<Rightarrow> exn + alert list" where
  "nse_emit segment today vars alerts =
    (case read_local (v_company_name vars) of
       Inl e \<Rightarrow> Inl e
     | Inr company_name \<Rightarrow>
         if company_name \<noteq> [] then
           (case read_local (v_date_text vars) of
              Inl e \<Rightarrow> Inl e
            | Inr date_text \<Rightarrow>
                if is_today_date today date_text then
                  (case read_local (v_subject vars) of
                     Inl e \<Rightarrow> Inl e
                   | Inr subject \<Rightarrow>
                       Inr (alerts @ [new_alert (''NSE ('' @ segment @ '')'') company_name date_text
                                       subject today]))
                else Inr alerts)
         else Inr alerts)"

definition nse_row :: "string \<Rightarrow> datetime \<Rightarrow> node \<Rightarrow> nse_locals \<times> alert list \<Rightarrow> nse_locals \<times> alert list" where
  "nse_row segment today row st = (case st of (vars, alerts) \<Rightarrow>
     (case nse_assign row vars of
        (Inl e, vars') \<Rightarrow> (vars', alerts)
      | (Inr u, vars') \<Rightarrow>
          (case nse_emit segment today vars' alerts of
             Inl e \<Rightarrow> (vars', alerts)
           | Inr alerts' \<Rightarrow> (vars', alerts'))))"

definition nse_announcement_rows :: "node \<Rightarrow> node list" where
  "nse_announcement_rows soup =
    (let rows = find_all (is_tag ''tr'') soup
     in if rows \<noteq> [] then rows
        else find_all (\<lambda>n. is_tag ''div'' n \<and> has_class [''announcement-item''] n) soup)"

definition nse_page :: "string \<Rightarrow> datetime \<Rightarrow> node \<Rightarrow> nse_locals \<times> alert list \<Rightarrow> nse_locals \<times> alert list" where
  "nse_page segment today soup st = for_each (nse_row segment today) (nse_announcement_rows soup) st"

subsection \<open>Traversal\<close>

text \<open>
  A \<open>while True\<close> loop may run forever: the loops are partial functions, \<open>None\<close> when
  they do not return. An action that may not return is a \<open>partial action\<close>.
\<close>

type_synonym ('a, 'w) paction = "'w session \<Rightarrow> ((exn + 'a) \<times> 'w session) option"

definition lift :: "('a, 'w) action \<Rightarrow> ('a, 'w) paction" where
  "lift m s = Some (m s)"

definition bindP :: "('a, 'w) paction \<Rightarrow> ('a \<Rightarrow> ('b, 'w) paction) \<Rightarrow> ('b, 'w) paction" where
  "bindP m f s = (case m s of
       None \<Rightarrow> None
     | Some (Inl e, s') \<Rightarrow> Some (Inl e, s')
     | Some (Inr x, s') \<Rightarrow> f x s')"

definition returnP :: "'a \<Rightarrow> ('a, 'w) paction" where
  "returnP x s = Some (Inr x, s)"

text \<open>\<open>try: m except E: return x\<close> around a partial action.\<close>

definition exceptP :: "exn \<Rightarrow> ('a, 'w) paction \<Rightarrow> 'a \<Rightarrow> ('a, 'w) paction" where
  "exceptP E m x s = (case m s of
       None \<Rightarrow> None
     | Some (Inl e, s') \<Rightarrow> (if e = E then Some (Inr x, s') else Some (Inl e, s'))
     | Some (Inr y, s') \<Rightarrow> Some (Inr y, s'))"

text \<open>The outermost handler of every adapter: \<open>except Exception: return []\<close>.\<close>

definition return_empty_on_error :: "('a list, 'w) paction \<Rightarrow> ('a list, 'w) paction" where
  "return_empty_on_error m s = (case m s of
       None \<Rightarrow> None
     | Some (Inl e, s') \<Rightarrow> Some (Inr [], s')
     | Some (Inr alerts, s') \<Rightarrow> Some (Inr alerts, s'))"

text \<open>
  The end of a page of the paged sources: look the next control up, and click it when it
  is enabled. \<open>True\<close> is "advanced", \<open>False\<close> is \<open>break\<close>.
\<close>

definition next_page :: "('w, 'h) system \<Rightarrow> ('w, 'h) webdriver \<Rightarrow> string \<Rightarrow> (bool, 'w) action" where
  "next_page sys drv next_xpath =
    except NoSuchElementException
      (bindE (find_element drv (ByXPath next_xpath)) (\<lambda>next_button.
       bindE (is_enabled drv next_button) (\<lambda>enabled.
       if enabled then
         bindE (click drv next_button) (\<lambda>u.
         bindE (sleepE sys 3) (\<lambda>u. returnE True))
       else returnE False)))
      (returnE False)"

partial_function (option) paged ::
  "('w, 'h) system \<Rightarrow> ('w, 'h) webdriver \<Rightarrow> string \<Rightarrow> (node \<Rightarrow> alert list \<Rightarrow> alert list)
   \<Rightarrow> alert list \<Rightarrow> 'w session \<Rightarrow> ((exn + alert list) \<times> 'w session) option" where
  "paged sys drv next_xpath extract alerts s =
    (case page_source drv s of
       (Inl e, s1) \<Rightarrow> Some (Inl e, s1)
     | (Inr soup, s1) \<Rightarrow>
        (case next_page sys drv next_xpath s1 of
           (Inl e, s2) \<Rightarrow> Some (Inl e, s2)
         | (Inr advanced, s2) \<Rightarrow>
             if advanced then paged sys drv next_xpath extract (extract soup alerts) s2
             else Some (Inr (extract soup alerts), s2)))"

declare paged.simps [code]

definition load_more_xpath :: string where
  "load_more_xpath = ''//button[contains(text(), 'Load More')] | //a[contains(text(), 'Load More')]''"

text \<open>One round of the "Load More" loop of CRISIL: \<open>True\<close> is "clicked", \<open>False\<close> is
  \<open>break\<close>. \<open>is_enabled\<close> is asked only of a displayed control.\<close>

definition load_more_step :: "('w, 'h) system \<Rightarrow> ('w, 'h) webdriver \<Rightarrow> (bool, 'w) action" where
  "load_more_step sys drv =
    except NoSuchElementException
      (bindE (find_element drv (ByXPath load_more_xpath)) (\<lambda>load_more_button.
       bindE (is_displayed drv load_more_button) (\<lambda>displayed.
       if displayed then
         bindE (is_enabled drv load_more_button) (\<lambda>enabled.
         if enabled then
           bindE (click drv load_more_button) (\<lambda>u.
           bindE (sleepE sys 3) (\<lambda>u. returnE True))
         else returnE False)
       else returnE False)))
      (returnE False)"

partial_function (option) load_more ::
  "('w, 'h) system \<Rightarrow> ('w, 'h) webdriver \<Rightarrow> 'w session \<Rightarrow> ((exn + unit) \<times> 'w session) option" where
  "load_more sys drv s =
    (case load_more_step sys drv s of
       (Inl e, s1) \<Rightarrow> Some (Inl e, s1)
     | (Inr clicked, s1) \<Rightarrow> if clicked then load_more sys drv s1 else Some (Inr (), s1))"

declare load_more.simps [code]

text \<open>One round of the scroll loop of CareEdge: scroll to the bottom, wait, measure.\<close>

definition scroll_to_bottom :: string where
  "scroll_to_bottom = ''document.querySelector('.recent-ratings').scrollTo(0, document.querySelector('.recent-ratings').scrollHeight);''"

definition scroll_height :: string where
  "scroll_height = ''return document.querySelector('.recent-ratings').scrollHeight''"

definition scroll_step :: "('w, 'h) system \<Rightarrow> ('w, 'h) webdriver \<Rightarrow> (int, 'w) action" where
  "scroll_step sys drv =
     bindE (execute_script drv scroll_to_bottom) (\<lambda>u.
     bindE (sleepE sys 2) (\<lambda>u.
     execute_script drv scroll_height))"

partial_function (option) scroll ::
  "('w, 'h) system \<Rightarrow> ('w, 'h) webdriver \<Rightarrow> int \<Rightarrow> 'w session \<Rightarrow> ((exn + unit) \<times> 'w session) option" where
  "scroll sys drv last_height s =
    (case scroll_step sys drv s of
       (Inl e, s1) \<Rightarrow> Some (Inl e, s1)
     | (Inr new_height, s1) \<Rightarrow>
         if new_height = last_height then Some (Inr (), s1)
         else scroll sys drv new_height s1)"

declare scroll.simps [code]

subsection \<open>The seven adapters\<close>

definition next_or_input :: string where
  "next_or_input = ''//a[contains(text(), 'Next')] | //input[@value='Next']''"

definition next_or_button :: string where
  "next_or_button = ''//a[contains(text(), 'Next')] | //button[contains(text(), 'Next')]''"

text \<open>Fill a date field: \<open>find_element\<close>, \<open>clear\<close>, \<open>send_keys\<close>.\<close>

definition fill :: "('w, 'h) webdriver \<Rightarrow> locator \<Rightarrow> string \<Rightarrow> (unit, 'w) action" where
  "fill drv loc keys =
     bindE (find_element drv loc) (\<lambda>input.
     bindE (clear drv input) (\<lambda>u. send_keys drv input keys))"

definition press :: "('w, 'h) system \<Rightarrow> ('w, 'h) webdriver \<Rightarrow> locator \<Rightarrow> (unit, 'w) action" where
  "press sys drv loc =
     bindE (find_element drv loc) (\<lambda>btn.
     bindE (click drv btn) (\<lambda>u. sleepE sys 3))"

definition open_page :: "('w, 'h) system \<Rightarrow> ('w, 'h) webdriver \<Rightarrow> string \<Rightarrow> nat \<Rightarrow> (unit, 'w) action" where
  "open_page sys drv url delay = bindE (driver_get drv url) (\<lambda>u. sleepE sys delay)"

definition icra_date_filter :: "('w, 'h) system \<Rightarrow> ('w, 'h) webdriver \<Rightarrow> datetime \<Rightarrow> (unit, 'w) action" where
  "icra_date_filter sys drv today =
    except NoSuchElementException
      (bindE (fill drv (ById ''txtFromDate'') (dd_slash_mm_slash_yyyy (get_current_date_str today))) (\<lambda>u.
       bindE (fill drv (ById ''txtToDate'') (dd_slash_mm_slash_yyyy (get_current_date_str today))) (\<lambda>u.
       press sys drv (ById ''btnSearch''))))
      (returnE ())"

definition scrape_icra_ratings :: "('w, 'h) system \<Rightarrow> datetime \<Rightarrow> (alert list, 'w) paction" where
  "scrape_icra_ratings sys today =
    return_empty_on_error (\<lambda>s. case driver sys of
       None \<Rightarrow> Some (Inr [], s)
     | Some drv \<Rightarrow>
         bindP (lift (open_page sys drv ''https://www.icra.in/Rating/RatingList.aspx'' 3)) (\<lambda>u.
         bindP (lift (icra_date_filter sys drv today)) (\<lambda>u.
         paged sys drv next_or_input (icra_page today) [])) s)"

text \<open>
  CareEdge: the inner \<open>try\<close> ends at a \<open>TimeoutException\<close> with the alerts appended so
  far, and nothing is appended before the last driver call, so with none.
\<close>

definition scrape_careedge_ratings :: "('w, 'h) system \<Rightarrow> datetime \<Rightarrow> (alert list, 'w) paction" where
  "scrape_careedge_ratings sys today =
    return_empty_on_error (\<lambda>s. case driver sys of
       None \<Rightarrow> Some (Inr [], s)
     | Some drv \<Rightarrow>
         bindP (lift (open_page sys drv ''https://www.careratings.com/'' 3)) (\<lambda>u.
         exceptP TimeoutException
           (bindP (lift (wait_until_presence drv (ByClassName ''recent-ratings''))) (\<lambda>recent_ratings_section.
            bindP (lift (execute_script drv scroll_height)) (\<lambda>last_height.
            bindP (scroll sys drv last_height) (\<lambda>u.
            bindP (lift (page_source drv)) (\<lambda>soup.
            returnP (careedge_page today soup []))))))
           []) s)"

definition scrape_acuite_ratings :: "('w, 'h) system \<Rightarrow> datetime \<Rightarrow> (alert list, 'w) paction" where
  "scrape_acuite_ratings sys today =
    return_empty_on_error (\<lambda>s. case driver sys of
       None \<Rightarrow> Some (Inr [], s)
     | Some drv \<Rightarrow>
         bindP (lift (open_page sys drv ''https://connect.acuite.in/liveratings'' 3)) (\<lambda>u.
         paged sys drv next_or_button (acuite_page today) []) s)"

definition scrape_crisil_ratings :: "('w, 'h) system \<Rightarrow> datetime \<Rightarrow> (alert list, 'w) paction" where
  "scrape_crisil_ratings sys today =
    return_empty_on_error (\<lambda>s. case driver sys of
       None \<Rightarrow> Some (Inr [], s)
     | Some drv \<Rightarrow>
         bindP (lift (open_page sys drv
           ''https://www.crisil.com/en/home/our-businesses/ratings/ratings-actions.html'' 3)) (\<lambda>u.
         bindP (load_more sys drv) (\<lambda>u.
         bindP (lift (page_source drv)) (\<lambda>soup.
         returnP (crisil_page today soup [])))) s)"

text \<open>BSE: the date fields, then per segment the dropdown, the submit button and the rows.\<close>

definition bse_date_fields :: "('w, 'h) webdriver \<Rightarrow> string \<Rightarrow> (unit, 'w) action" where
  "bse_date_fields drv current_date =
    except NoSuchElementException
      (bindE (fill drv (ById ''txtFromDt'') current_date) (\<lambda>u.
       fill drv (ById ''txtToDt'') current_date))
      (returnE ())"

fun select_option :: "('w, 'h) webdriver \<Rightarrow> string \<Rightarrow> 'h list \<Rightarrow> (unit, 'w) action" where
  "select_option drv segment [] = returnE ()"
| "select_option drv segment (opt # opts) =
     bindE (element_text drv opt) (\<lambda>t.
     if sublist (lower segment) (lower t) then click drv opt
     else select_option drv segment opts)"

definition bse_select_segment :: "('w, 'h) webdriver \<Rightarrow> string \<Rightarrow> (unit, 'w) action" where
  "bse_select_segment drv segment =
    except NoSuchElementException
      (bindE (find_element drv (ById ''ddlSegment'')) (\<lambda>segment_dropdown.
       bindE (find_elements drv segment_dropdown (ByTagName ''option'')) (\<lambda>opts.
       select_option drv segment opts)))
      (returnE ())"

definition bse_submit :: "('w, 'h) system \<Rightarrow> ('w, 'h) webdriver \<Rightarrow> (unit, 'w) action" where
  "bse_submit sys drv =
    except NoSuchElementException (press sys drv (ById ''btnSubmit'')) (returnE ())"

text \<open>One segment: its \<open>try\<close> ends at any exception with the alerts as they were.\<close>

definition bse_segment ::
  "('w, 'h) system \<Rightarrow> ('w, 'h) webdriver \<Rightarrow> datetime \<Rightarrow> string \<Rightarrow> string
   \<Rightarrow> alert list \<times> 'w session \<Rightarrow> alert list \<times> 'w session" where
  "bse_segment sys drv today current_date segment st = (case st of (alerts, s) \<Rightarrow>
     (case bindE (bse_select_segment drv segment) (\<lambda>u.
           bindE (bse_submit sys drv) (\<lambda>u. page_source drv)) s of
        (Inl e, s') \<Rightarrow> (alerts, s')
      | (Inr soup, s') \<Rightarrow> (bse_page segment current_date today soup alerts, s')))"

definition scrape_bse_announcements :: "('w, 'h) system \<Rightarrow> datetime \<Rightarrow> (alert list, 'w) paction" where
  "scrape_bse_announcements sys today =
    return_empty_on_error (\<lambda>s. case driver sys of
       None \<Rightarrow> Some (Inr [], s)
     | Some drv \<Rightarrow>
         (let current_date = dd_slash_mm_slash_yyyy (get_current_date_str today) in
          bindP (lift (open_page sys drv ''https://www.bseindia.com/corporates/ann.html'' 3)) (\<lambda>u.
          bindP (lift (bse_date_fields drv current_date)) (\<lambda>u s1.
            (case for_each (bse_segment sys drv today current_date) [''Equity'', ''Debt''] ([], s1) of
               (alerts, s2) \<Rightarrow> Some (Inr alerts, s2)))) s))"

text \<open>
  NSE, one segment: a tab that is not found skips the segment (\<open>continue\<close>), and so does
  any other exception of the segment's \<open>try\<close>; the two differ in the message logged.
\<close>

definition nse_tab :: "string \<Rightarrow> string" where
  "nse_tab segment = ''//a[contains(text(), '' @ [CHR 0x27] @ segment @ [CHR 0x27] @ '')]''"

definition nse_segment ::
  "('w, 'h) system \<Rightarrow> ('w, 'h) webdriver \<Rightarrow> datetime \<Rightarrow> string
   \<Rightarrow> (nse_locals \<times> alert list) \<times> 'w session \<Rightarrow> (nse_locals \<times> alert list) \<times> 'w session" where
  "nse_segment sys drv today segment st = (case st of (state, s) \<Rightarrow>
     (case bindE (press sys drv (ByXPath (nse_tab segment))) (\<lambda>u. page_source drv) s of
        (Inl e, s') \<Rightarrow> (state, s')
      | (Inr soup, s') \<Rightarrow> (nse_page segment today soup state, s')))"

definition scrape_nse_announcements :: "('w, 'h) system \<Rightarrow> datetime \<Rightarrow> (alert list, 'w) paction" where
  "scrape_nse_announcements sys today =
    return_empty_on_error (\<lambda>s. case driver sys of
       None \<Rightarrow> Some (Inr [], s)
     | Some drv \<Rightarrow>
         bindP (lift (open_page sys drv
           ''https://www.nseindia.com/companies-listing/corporate-filings-announcements'' 5)) (\<lambda>u s1.
           (case for_each (nse_segment sys drv today) [''Equity'', ''Debt''] ((unbound, []), s1) of
              ((vars, alerts), s2) \<Rightarrow> Some (Inr alerts, s2))) s)"

definition sebi_date_filter :: "('w, 'h) system \<Rightarrow> ('w, 'h) webdriver \<Rightarrow> datetime \<Rightarrow> (unit, 'w) action" where
  "sebi_date_filter sys drv today =
    except NoSuchElementException
      (bindE (fill drv (ByName ''fromDate'') (dd_mm_yyyy (get_current_date_str today))) (\<lambda>u.
       bindE (fill drv (ByName ''toDate'') (dd_mm_yyyy (get_current_date_str today))) (\<lambda>u.
       press sys drv (ByXPath ''//input[@type='submit']''))))
      (returnE ())"

definition scrape_sebi_announcements :: "('w, 'h) system \<Rightarrow> datetime \<Rightarrow> (alert list, 'w) paction" where
  "scrape_sebi_announcements sys today =
    return_empty_on_error (\<lambda>s. case driver sys of
       None \<Rightarrow> Some (Inr [], s)
     | Some drv \<Rightarrow>
         bindP (lift (open_page sys drv
           ''https://www.sebi.gov.in/sebiweb/home/HomeAction.do?doListing=yes&sid=1&ssid=1&smid=1'' 3)) (\<lambda>u.
         bindP (lift (sebi_date_filter sys drv today)) (\<lambda>u.
         paged sys drv next_or_input (sebi_page today) [])) s)"

subsection \<open>\<open>run_all_scrapers\<close>\<close>

text \<open>The list of named scrapers, and the loop over it; writing the file of alerts is
  outside the model.\<close>

definition scrapers ::
  "(string \<times> (('w, 'h) system \<Rightarrow> datetime \<Rightarrow> (alert list, 'w) paction)) list" where
  "scrapers =
    [(''ICRA'', scrape_icra_ratings),
     (''CareEdge'', scrape_careedge_ratings),
     (''Acuite'', scrape_acuite_ratings),
     (''CRISIL'', scrape_crisil_ratings),
     (''BSE'', scrape_bse_announcements),
     (''NSE'', scrape_nse_announcements),
     (''SEBI'', scrape_sebi_announcements)]"

fun run_scrapers ::
  "(string \<times> (('w, 'h) system \<Rightarrow> datetime \<Rightarrow> (alert list, 'w) paction)) list
   \<Rightarrow> ('w, 'h) system \<Rightarrow> datetime \<Rightarrow> alert list \<Rightarrow> 'w session \<Rightarrow> (alert list \<times> 'w session) option" where
  "run_scrapers [] sys today all_alerts s = Some (all_alerts, s)"
| "run_scrapers ((agency_name, scraper_func) # rest) sys today all_alerts s =
    (case scraper_func sys today s of
       None \<Rightarrow> None
     | Some (Inl e, s1) \<Rightarrow> run_scrapers rest sys today all_alerts s1
     | Some (Inr agency_alerts, s1) \<Rightarrow>
         run_scrapers rest sys today (all_alerts @ agency_alerts) (sleep sys 2 s1))"

definition run_all_scrapers :: "('w, 'h) system \<Rightarrow> datetime \<Rightarrow> 'w session \<Rightarrow> (alert list \<times> 'w session) option" where
  "run_all_scrapers sys today s = run_scrapers scrapers sys today [] s"

section \<open>Simulated sites\<close>

text \<open>
  Concrete browsers for the worked examples. \<open>stub\<close> answers every call with success:
  every control is found, displayed and enabled, and the page is empty. The state of a
  simulated site is a counter of the clicks (or scrolls) made.
\<close>

definition empty_page :: node where
  "empty_page = Tag ''html'' None []"

definition stub :: "(nat, unit) webdriver" where
  "stub = \<lparr>
     drv_get = (\<lambda>url w. (Inr (), w)),
     drv_find_element = (\<lambda>loc w. (Inr (), w)),
     drv_find_elements = (\<lambda>h loc w. (Inr [], w)),
     drv_clear = (\<lambda>h w. (Inr (), w)),
     drv_send_keys = (\<lambda>h keys w. (Inr (), w)),
     drv_click = (\<lambda>h w. (Inr (), w)),
     drv_is_enabled = (\<lambda>h w. (Inr True, w)),
     drv_is_displayed = (\<lambda>h w. (Inr True, w)),
     drv_text = (\<lambda>h w. (Inr '''', w)),
     drv_page_source = (\<lambda>w. (Inr empty_page, w)),
     drv_execute_script = (\<lambda>script w. (Inr 0, w)),
     drv_wait_until_presence = (\<lambda>loc w. (Inr (), w)) \<rparr>"

definition system_of :: "(nat, unit) webdriver \<Rightarrow> (nat, unit) system" where
  "system_of drv = \<lparr>driver = Some drv, passage = (\<lambda>n w. w)\<rparr>"


definition start :: "nat session" where
  "start = \<lparr>world = 0, calls = []\<rparr>"


text \<open>A card of the hinted sources, and a table row of three cells.\<close>

definition card :: "string \<Rightarrow> string \<Rightarrow> string \<Rightarrow> node" where
  "card co dt ac = Tag ''div'' (Some [''rating-item''])
     [Tag ''span'' (Some [''company'']) [NavigableString co],
      Tag ''span'' (Some [''date'']) [NavigableString dt],
      Tag ''span'' (Some [''action'']) [NavigableString ac]]"

definition row3 :: "string \<Rightarrow> string \<Rightarrow> string \<Rightarrow> node" where
  "row3 a b c = Tag ''tr'' None
     [Tag ''td'' None [NavigableString a], Tag ''td'' None [NavigableString b],
      Tag ''td'' None [NavigableString c]]"

definition header_row :: node where
  "header_row = Tag ''tr'' None
     [Tag ''th'' None [NavigableString ''Date''], Tag ''th'' None [NavigableString ''Company''],
      Tag ''th'' None [NavigableString ''Subject'']]"

text \<open>
  A CRISIL page whose "Load More" control disappears after two clicks; each click adds a
  card.
\<close>

definition crisil_site :: "(nat, unit) webdriver" where
  "crisil_site = stub\<lparr>
     drv_find_element := (\<lambda>loc w.
        if loc = ByXPath load_more_xpath \<and> w \<ge> 2 then (Inl NoSuchElementException, w) else (Inr (), w)),
     drv_click := (\<lambda>h w. (Inr (), Suc w)),
     drv_page_source := (\<lambda>w. (Inr (Tag ''html'' None
        (map (\<lambda>i. card (''Company '' @ show_nat i) ''04 Nov 2026'' ''Upgraded'') [0..<Suc w])), w)) \<rparr>"

text \<open>A CareEdge page whose list grows by 100 with each of the first three scrolls.\<close>

definition careedge_site :: "(nat, unit) webdriver" where
  "careedge_site = stub\<lparr>
     drv_execute_script := (\<lambda>script w.
        if script = scroll_to_bottom then (Inr 0, Suc w) else (Inr (100 * int (min w 3)), w)),
     drv_page_source := (\<lambda>w. (Inr (Tag ''html'' None
        [card ''Acme Finance'' ''2026-11-04'' ''Reaffirmed'']), w)) \<rparr>"


definition nse_page_of :: "nat \<Rightarrow> node" where
  "nse_page_of w =
    (if w \<le> 1 then Tag ''table'' None [header_row, row3 ''04-Nov-2026 10:00'' ''Acme Finance'' ''Board meeting'']
     else Tag ''table'' None [header_row])"


definition nse_site :: "(nat, unit) webdriver" where
  "nse_site = stub\<lparr>
     drv_click := (\<lambda>h w. (Inr (), Suc w)),
     drv_page_source := (\<lambda>w. (Inr (nse_page_of w), w)) \<rparr>"



text \<open>The outcome of the adapter of NSE on \<open>nse_site\<close>: the locals after the row of the
  Equity segment, the alert of a segment, and the record of the calls.\<close>

definition nse_bound :: nse_locals where
  "nse_bound = \<lparr>v_company_name = Some ''Acme Finance'', v_subject = Some ''Board meeting'',
     v_date_text = Some ''04-Nov-2026 10:00''\<rparr>"

definition nse_alert :: "string \<Rightarrow> alert" where
  "nse_alert segment = \<lparr>agency = ''NSE ('' @ segment @ '')'', company = ''Acme Finance'',
     date = ''04-Nov-2026 10:00'', action = ''Board meeting'', timestamp = ''2026-11-04T09:30:00''\<rparr>"

definition nse_end :: "nat session" where
  "nse_end = \<lparr>world = 2, calls =
     [Get ''https://www.nseindia.com/companies-listing/corporate-filings-announcements'', Sleep 5,
      FindElement (ByXPath (nse_tab ''Equity'')), Click, Sleep 3, PageSource (Some (nse_page_of 1)),
      FindElement (ByXPath (nse_tab ''Debt'')), Click, Sleep 3, PageSource (Some (nse_page_of 2))]\<rparr>"

text \<open>The outcome of the adapter of CRISIL on \<open>crisil_site\<close>: the page after two clicks,
  its three alerts, and the record of the calls.\<close>

definition crisil_card :: "string \<Rightarrow> node" where
  "crisil_card i = card (''Company '' @ i) ''04 Nov 2026'' ''Upgraded''"

definition crisil_final_page :: node where
  "crisil_final_page = Tag ''html'' None [crisil_card ''0'', crisil_card ''1'', crisil_card ''2'']"

definition crisil_alert :: "string \<Rightarrow> alert" where
  "crisil_alert i = \<lparr>agency = ''CRISIL'', company = ''Company '' @ i, date = ''04 Nov 2026'',
     action = ''Upgraded'', timestamp = ''2026-11-04T09:30:00''\<rparr>"

definition clicked_round :: "call list" where
  "clicked_round = [FindElement (ByXPath load_more_xpath), IsDisplayed, IsEnabled, Click, Sleep 3]"

definition crisil_end :: "nat session" where
  "crisil_end = \<lparr>world = 2, calls =
     [Get ''https://www.crisil.com/en/home/our-businesses/ratings/ratings-actions.html'', Sleep 3]
     @ clicked_round @ clicked_round
     @ [FindElement (ByXPath load_more_xpath), PageSource (Some crisil_final_page)]\<rparr>"

section \<open>Notions for the proofs about the adapters\<close>

text \<open>An action is \<open>quiet\<close> when it only appends calls and takes no snapshot.\<close>

definition quiet :: "('a, 'w) action \<Rightarrow> bool" where
  "quiet m = (\<forall>s. \<exists>cs. calls (snd (m s)) = calls s @ cs \<and> snapshots cs = [])"

text \<open>The second state continues the first one.\<close>

definition continues :: "'w session \<Rightarrow> 'w session \<Rightarrow> bool" where
  "continues s s' = (\<exists>cs. calls s' = calls s @ cs)"

text \<open>Every alert added to a list stems from a row of a list of rows, or of a snapshot
  taken between two states.\<close>

definition stems_from_rows :: "('r \<Rightarrow> alert \<Rightarrow> bool) \<Rightarrow> 'r list \<Rightarrow> alert list \<Rightarrow> alert list \<Rightarrow> bool" where
  "stems_from_rows ok rows before after =
     (\<forall>a \<in> set after. a \<in> set before \<or> (\<exists>row \<in> set rows. ok row a))"

definition stems_from_snapshots ::
  "(node \<Rightarrow> node list) \<Rightarrow> (node \<Rightarrow> alert \<Rightarrow> bool) \<Rightarrow> 'w session \<Rightarrow> 'w session
   \<Rightarrow> alert list \<Rightarrow> alert list \<Rightarrow> bool" where
  "stems_from_snapshots rows_of ok s s' before after =
     (\<forall>a \<in> set after. a \<in> set before \<or>
        (\<exists>soup \<in> set (snapshots (new_calls s s')). \<exists>row \<in> set (rows_of soup). ok row a))"

text \<open>The raw date text of a candidate record: found by hints, or the text of a cell.\<close>

definition hinted_date :: "string list \<Rightarrow> node \<Rightarrow> string" where
  "hinted_date date_hints row =
     (case extract_text_from_element bs4 row date_hints of Inl e \<Rightarrow> '''' | Inr t \<Rightarrow> t)"

definition cell_text :: "nat \<Rightarrow> node \<Rightarrow> string" where
  "cell_text i row = get_text_strip (cells_of row ! i)"

definition nse_date :: "node \<Rightarrow> string \<Rightarrow> bool" where
  "nse_date row d =
     (if tag_name row = ''tr'' then length (cells_of row) \<ge> 3 \<and> d = cell_text 0 row
      else d = hinted_date [''date'', ''time''] row)"

text \<open>What every emitted alert satisfies, and what ties it to its row.\<close>

definition emitted :: "datetime \<Rightarrow> alert \<Rightarrow> bool" where
  "emitted today a = (company a \<noteq> [] \<and> is_today_date today (date a)
     \<and> (agency a = ''SEBI'' \<longrightarrow> company a = ''SEBI Announcement''))"

definition dated_by :: "(node \<Rightarrow> string) \<Rightarrow> datetime \<Rightarrow> node \<Rightarrow> alert \<Rightarrow> bool" where
  "dated_by date_of today row a = (emitted today a \<and> date a = date_of row)"

definition nse_dated :: "datetime \<Rightarrow> node \<Rightarrow> alert \<Rightarrow> bool" where
  "nse_dated today row a = (emitted today a \<and> nse_date row (date a))"

definition bse_dated :: "datetime \<Rightarrow> node \<Rightarrow> alert \<Rightarrow> bool" where
  "bse_dated today row a = (emitted today a \<and> date a = strftime ''%d/%m/%Y'' today)"

text \<open>The locals of NSE hold a date only from a row of a set of rows.\<close>

definition nse_inv :: "datetime \<Rightarrow> node set \<Rightarrow> nse_locals \<times> alert list \<Rightarrow> bool" where
  "nse_inv today R st = (case st of (vars, alerts) \<Rightarrow>
     (\<forall>d. v_date_text vars = Some d \<longrightarrow> (\<exists>row \<in> R. nse_date row d))
     \<and> (\<forall>a \<in> set alerts. \<exists>row \<in> R. nse_dated today row a))"

text \<open>An outcome continues the state it started from, and the alerts it returns stem
  from the snapshots taken on the way.\<close>

definition stemming ::
  "(node \<Rightarrow> node list) \<Rightarrow> (node \<Rightarrow> alert \<Rightarrow> bool) \<Rightarrow> 'w session
   \<Rightarrow> (exn + alert list) \<times> 'w session \<Rightarrow> bool" where
  "stemming rows_of ok s y = (continues s (snd y) \<and>
     (\<forall>alerts. fst y = Inr alerts \<longrightarrow> stems_from_snapshots rows_of ok s (snd y) [] alerts))"

text \<open>The candidate rows of the snapshots taken between two states.\<close>

definition rows_seen :: "(node \<Rightarrow> node list) \<Rightarrow> 'w session \<Rightarrow> 'w session \<Rightarrow> node set" where
  "rows_seen rows_of s s' = (\<Union>soup \<in> set (snapshots (new_calls s s')). set (rows_of soup))"

text \<open>The outcome of taking a snapshot: if it returned a page, the page is among the
  snapshots recorded since the start.\<close>

definition shot :: "'w session \<Rightarrow> (exn + node) \<times> 'w session \<Rightarrow> bool" where
  "shot s y = (continues s (snd y) \<and>
     (\<forall>soup. fst y = Inr soup \<longrightarrow> soup \<in> set (snapshots (new_calls s (snd y)))))"


text \<open>The scroll heights measured, in order; a sequence of measurements that ends at its
  first repeat.\<close>

fun heights :: "call list \<Rightarrow> int list" where
  "heights [] = []"
| "heights (ExecuteScript script (Some h) # cs) =
     (if script = scroll_height then h # heights cs else heights cs)"
| "heights (c # cs) = heights cs"

fun ends_at_first_repeat :: "int list \<Rightarrow> bool" where
  "ends_at_first_repeat [] = False"
| "ends_at_first_repeat [x] = False"
| "ends_at_first_repeat (x # y # zs) = (if x = y then zs = [] else ends_at_first_repeat (y # zs))"

text \<open>The state after \<open>n\<close> rounds of a loop that all went on; \<open>None\<close> when one of them
  ended the loop or raised.\<close>

fun rounds :: "('w session \<Rightarrow> (exn + bool) \<times> 'w session) \<Rightarrow> nat \<Rightarrow> 'w session \<Rightarrow> 'w session option" where
  "rounds step 0 s = Some s"
| "rounds step (Suc n) s = (case step s of
       (Inl e, s1) \<Rightarrow> None
     | (Inr again, s1) \<Rightarrow> if again then rounds step n s1 else None)"

text \<open>
  The "Load More" control as the driver reports it in a state of the browser. It is
  absent when the lookup raises the not-found error, or a later call on the control that
  was found does; it is not displayed, or disabled, when the driver says so.
\<close>

definition control_absent :: "('w, 'h) webdriver \<Rightarrow> 'w \<Rightarrow> bool" where
  "control_absent drv w = (case drv_find_element drv (ByXPath load_more_xpath) w of
       (Inl e, w1) \<Rightarrow> e = NoSuchElementException
     | (Inr h, w1) \<Rightarrow> (case drv_is_displayed drv h w1 of
          (Inl e, w2) \<Rightarrow> e = NoSuchElementException
        | (Inr displayed, w2) \<Rightarrow> displayed \<and> (case drv_is_enabled drv h w2 of
             (Inl e, w3) \<Rightarrow> e = NoSuchElementException
           | (Inr enabled, w3) \<Rightarrow> enabled \<and> fst (drv_click drv h w3) = Inl NoSuchElementException)))"

definition control_not_displayed :: "('w, 'h) webdriver \<Rightarrow> 'w \<Rightarrow> bool" where
  "control_not_displayed drv w = (case drv_find_element drv (ByXPath load_more_xpath) w of
       (Inl e, w1) \<Rightarrow> False
     | (Inr h, w1) \<Rightarrow> fst (drv_is_displayed drv h w1) = Inr False)"

definition control_disabled :: "('w, 'h) webdriver \<Rightarrow> 'w \<Rightarrow> bool" where
  "control_disabled drv w = (case drv_find_element drv (ByXPath load_more_xpath) w of
       (Inl e, w1) \<Rightarrow> False
     | (Inr h, w1) \<Rightarrow> (case drv_is_displayed drv h w1 of
          (Inl e, w2) \<Rightarrow> False
        | (Inr displayed, w2) \<Rightarrow> displayed \<and> fst (drv_is_enabled drv h w2) = Inr False))"

section \<open>Properties of the date matcher\<close>

lemma digit_char_digit: "n < 10 \<Longrightarrow> digit_char n \<in> set ''0123456789''"
  unfolding digit_char_def by (rule nth_mem) simp

lemma show_nat_digits: "set (show_nat n) \<subseteq> set ''0123456789''"
proof (induction n rule: show_nat.induct)
  case (1 n)
  show ?case
  proof (cases "n < 10")
    case True
    then show ?thesis using digit_char_digit[of n] by (subst show_nat.simps) simp
  next
    case False
    have "n mod 10 < 10" by simp
    from digit_char_digit[OF this] 1[OF False] False show ?thesis
      by (subst show_nat.simps) simp
  qed
qed

lemma show_nat_nonempty: "show_nat n \<noteq> []"
  by (subst show_nat.simps) simp

lemma zfill_digits: "set (zfill w (show_nat n)) \<subseteq> set ''0123456789''"
  using show_nat_digits[of n] by (auto simp: zfill_def)

lemma zfill_nonempty: "zfill w (show_nat n) \<noteq> []"
  by (simp add: zfill_def show_nat_nonempty)

lemma digit_not_space: "c \<in> set ''0123456789'' \<Longrightarrow> \<not> isspace c"
  by (auto simp: isspace_def)

lemma digit_not_comma: "c \<in> set ''0123456789'' \<Longrightarrow> c \<noteq> CHR '',''"
  by auto



lemma month_name_cases: "month_name m \<in> set month_names \<or> month_name m = []"
proof (cases "1 \<le> m \<and> m \<le> 12")
  case True
  have "length month_names = 12" by (simp add: month_names_def)
  with True have "m - 1 < length month_names" by arith
  from nth_mem[OF this] True show ?thesis by (simp add: month_name_def)
next
  case False
  then show ?thesis by (auto simp: month_name_def)
qed

lemma no_comma_month_names: "\<forall>s \<in> set month_names. CHR '','' \<notin> set s"
  by (simp add: month_names_def)

lemma month_name_no_comma: "CHR '','' \<notin> set (month_name m)"
  using month_name_cases[of m] no_comma_month_names by auto

lemma month_abbr_no_comma: "CHR '','' \<notin> set (month_abbr m)"
  using month_name_no_comma[of m] set_take_subset[of 3 "month_name m"]
  unfolding month_abbr_def by blast

lemma zfill_no_comma: "CHR '','' \<notin> set (zfill w (show_nat n))"
  using zfill_digits[of w n] digit_not_comma by blast

lemma zfill_hd: "\<not> isspace (hd (zfill w (show_nat n)))"
  using zfill_digits[of w n] hd_in_set[OF zfill_nonempty[of w n]] digit_not_space by blast

lemma zfill_last: "\<not> isspace (last (zfill w (show_nat n)))"
  using zfill_digits[of w n] last_in_set[OF zfill_nonempty[of w n]] digit_not_space by blast



lemma today_formats_eq: "today_formats t = todayVariants t"
  by (simp add: today_formats_def todayVariants_def directive_def DD_def MM_def YYYY_def Mon_def Month_def)

lemma dropWhile_keeps:
  assumes "v \<noteq> []" "\<not> P (hd v)"
  shows "\<exists>p'. dropWhile P (p @ v @ q) = p' @ v @ q"
proof (induction p)
  case Nil
  from assms have "dropWhile P (v @ q) = v @ q" by (cases v) auto
  then show ?case by (intro exI[of _ "[]"]) simp
next
  case (Cons a p)
  show ?case
  proof (cases "P a")
    case True
    with Cons show ?thesis by simp
  next
    case False
    then show ?thesis by (intro exI[of _ "a # p"]) simp
  qed
qed

lemma strip_keeps:
  assumes "v \<noteq> []" "\<not> isspace (hd v)" "\<not> isspace (last v)"
  shows "\<exists>p' q'. strip (p @ v @ q) = p' @ v @ q'"
proof -
  from dropWhile_keeps[where P=isspace and v=v, OF assms(1,2)] obtain p' where
    l: "lstrip (p @ v @ q) = p' @ v @ q" unfolding lstrip_def by blast
  have rv: "rev v \<noteq> []" "\<not> isspace (hd (rev v))"
    using assms by (simp_all add: hd_rev)
  from dropWhile_keeps[where P=isspace and v="rev v", OF rv, of "rev q" "rev p'"] obtain q' where
    "dropWhile isspace (rev q @ rev v @ rev p') = q' @ rev v @ rev p'" by blast
  then have "rstrip (p' @ v @ q) = p' @ v @ rev q'"
    by (simp add: rstrip_def)
  with l show ?thesis unfolding strip_def by auto
qed

lemma remove_commas_keeps:
  assumes "CHR '','' \<notin> set v"
  shows "remove_commas (p @ v @ q) = remove_commas p @ v @ remove_commas q"
proof -
  from assms have "filter (\<lambda>c. c \<noteq> CHR '','') v = v" by (induction v) auto
  then show ?thesis by (simp add: remove_commas_def)
qed

lemma strip_all_space: "list_all isspace s \<Longrightarrow> strip s = []"
proof -
  assume "list_all isspace s"
  then have "dropWhile isspace s = []"
    by (induction s) auto
  then show ?thesis by (simp only: strip_def lstrip_def rstrip_def rev.simps dropWhile.simps)
qed

lemma date_literal_build:
  assumes "CHR '','' \<notin> set m" "CHR '','' \<notin> set s" 
  shows "date_literal (zfill w1 (show_nat a) @ s @ m @ s @ zfill w2 (show_nat b))"
  unfolding date_literal_def
  using zfill_nonempty[of w1 a] zfill_nonempty[of w2 b] zfill_hd[of w1 a] zfill_last[of w2 b]
    zfill_no_comma[of w1 a] zfill_no_comma[of w2 b] assms
  by (simp add: hd_append)



lemma sep_no_comma: "CHR '','' \<notin> set ''-''" "CHR '','' \<notin> set ''/''" "CHR '','' \<notin> set '' ''"
  by simp_all

lemma variants_literal: "list_all date_literal (todayVariants t)"
  unfolding todayVariants_def DD_def MM_def YYYY_def Mon_def Month_def list.pred_inject
  by (intro conjI date_literal_build sep_no_comma zfill_no_comma month_abbr_no_comma month_name_no_comma list.pred_inject(1))

lemma sublist_cleaned:
  assumes "date_literal v"
  shows "sublist v (remove_commas (strip (p @ v @ q)))"
proof -
  from assms have f: "v \<noteq> []" "\<not> isspace (hd v)" "\<not> isspace (last v)" "CHR '','' \<notin> set v"
    by (simp_all add: date_literal_def)
  from strip_keeps[OF f(1,2,3)] obtain p' q'
    where "strip (p @ v @ q) = p' @ v @ q'" by blast
  then show ?thesis
    by (simp add: remove_commas_keeps[OF f(4)])
qed

lemma is_today_date_isToday: "is_today_date t text = isToday t text"
proof (cases "list_all isspace text")
  case True
  then have c: "remove_commas (strip text) = []"
    by (simp add: strip_all_space remove_commas_def)
  have "\<forall>v \<in> set (todayVariants t). v \<noteq> []"
    using variants_literal[of t] by (simp add: list_all_iff date_literal_def)
  with True c show ?thesis
    by (simp add: is_today_date_def isToday_def today_formats_eq list_ex_iff)
next
  case False
  then have "text \<noteq> []" by auto
  with False show ?thesis
    by (simp add: is_today_date_def isToday_def today_formats_eq list_ex_iff)
qed

lemma embedded: "v \<in> set (todayVariants t) \<Longrightarrow> is_today_date t (p @ v @ q)"
proof -
  assume v: "v \<in> set (todayVariants t)"
  with variants_literal[of t] have dl: "date_literal v" by (simp add: list_all_iff)
  then have "p @ v @ q \<noteq> []" by (simp add: date_literal_def)
  with sublist_cleaned[OF dl, of p q] v show ?thesis
    by (auto simp: is_today_date_def today_formats_eq list_ex_iff)
qed



text \<open>
  Claim C2. \<open>is_today_date\<close> computes the specification's \<open>isToday\<close>: false for the
  empty and for a white-space-only text, and otherwise true exactly when the text, stripped
  and with its commas deleted, contains one of the seven renderings of the current date;
  the renderings of the program are the seven of the specification; and every rendering
  embedded in arbitrary surrounding text is accepted.
\<close>

theorem is_today_date_refines:
  "is_today_date t text = isToday t text
   \<and> today_formats t = todayVariants t
   \<and> (\<forall>v \<in> set (todayVariants t). \<forall>p q. is_today_date t (p @ v @ q))"
  using is_today_date_isToday today_formats_eq embedded by blast

lemma show_nat_small: "n < 10 \<Longrightarrow> show_nat n = [digit_char n]"
  by (subst show_nat.simps) simp

lemma show_nat_large: "10 \<le> n \<Longrightarrow> show_nat n = show_nat (n div 10) @ [digit_char (n mod 10)]"
  by (subst show_nat.simps) simp

lemmas show_nat_eval = show_nat_small show_nat_large digit_char_def

lemma todayVariants_d0: "todayVariants d0 = [''04-11-2026'', ''2026-11-04'', ''04/11/2026'', ''11/04/2026'',
  ''04-Nov-2026'', ''04 Nov 2026'', ''04 November 2026'']"
  by (simp add: todayVariants_def DD_def MM_def YYYY_def Mon_def Month_def d0_def show_nat_eval
      zfill_def month_abbr_def month_name_def month_names_def)

theorem is_today_date_refines_witness:
  "''04/11/2026'' \<in> set (todayVariants d0)
   \<and> is_today_date d0 (''Filed on '' @ ''04/11/2026'' @ '' 10:30:00'')
   \<and> \<not> is_today_date d0 ''   ''
   \<and> \<not> is_today_date d0 ''04/11/2025''"
proof -
  have m: "''04/11/2026'' \<in> set (todayVariants d0)" by (simp add: todayVariants_d0)
  have a: "is_today_date d0 (''Filed on '' @ ''04/11/2026'' @ '' 10:30:00'')"
    using is_today_date_refines[of d0 "[]"] m by blast
  have b: "\<not> isToday d0 ''   ''" by (simp add: isToday_def isspace_def)
  have c: "\<not> isToday d0 ''04/11/2025''" 
    unfolding isToday_def todayVariants_d0
    by (simp add: strip_def lstrip_def rstrip_def isspace_def remove_commas_def sublist_code)
  from m a b c is_today_date_refines[of d0 "''   ''"] is_today_date_refines[of d0 "''04/11/2025''"]
  show ?thesis by blast
qed

section \<open>Properties of the report\<close>

lemma by_agency_snoc: "by_agency (xs @ [a]) = append_to (agency a) a (by_agency xs)"
  by (simp add: by_agency_def)

lemma first_seen_snoc: "first_seen (xs @ [x]) = (if x \<in> set xs then first_seen xs else first_seen xs @ [x])"
  by (simp add: first_seen_def)

lemma set_first_seen: "set (first_seen xs) = set xs"
  by (simp add: first_seen_def)

lemma distinct_first_seen: "distinct (first_seen xs)"
  by (simp add: first_seen_def)

lemma keys_append_to:
  "map fst (append_to k a d) = (if k \<in> fst ` set d then map fst d else map fst d @ [k])"
  by (induction d) (force simp: image_iff)+

lemma by_agency_keys: "map fst (by_agency xs) = first_seen (map agency xs)"
proof (induction xs rule: rev_induct)
  case Nil
  show ?case by (simp add: by_agency_def first_seen_def)
next
  case (snoc a xs)
  have "set (map fst (by_agency xs)) = set (first_seen (map agency xs))"
    by (simp only: snoc)
  then have "fst ` set (by_agency xs) = agency ` set xs"
    by (simp add: set_first_seen)
  with snoc show ?case
    by (simp add: by_agency_snoc keys_append_to first_seen_snoc)
qed

lemma by_agency_key_set: "fst ` set (by_agency xs) = agency ` set xs"
proof -
  have "set (map fst (by_agency xs)) = set (first_seen (map agency xs))"
    by (simp only: by_agency_keys)
  then show ?thesis by (simp add: set_first_seen)
qed

lemma append_to_groups:
  assumes "\<forall>g \<in> set d. snd g = filter (\<lambda>b. agency b = fst g) xs"
    and "agency a \<in> fst ` set d \<or> filter (\<lambda>b. agency b = agency a) xs = []"
    and "distinct (map fst d)"
  shows "\<forall>g \<in> set (append_to (agency a) a d). snd g = filter (\<lambda>b. agency b = fst g) (xs @ [a])"
  using assms
proof (induction d)
  case Nil
  then show ?case by simp
next
  case (Cons g d)
  obtain k' as where g: "g = (k', as)" by (cases g)
  show ?case
  proof (cases "k' = agency a")
    case True
    with Cons.prems(3) g have "\<forall>h \<in> set d. fst h \<noteq> agency a" by (auto simp: image_iff)
    with Cons.prems(1) True g show ?thesis by auto
  next
    case False
    with Cons.prems(2) g
    have 2: "agency a \<in> fst ` set d \<or> filter (\<lambda>b. agency b = agency a) xs = []" by (auto simp: image_iff)
    from Cons.prems have "\<forall>g \<in> set d. snd g = filter (\<lambda>b. agency b = fst g) xs" "distinct (map fst d)"
      by auto
    from Cons.IH[OF this(1) 2 this(2)] Cons.prems(1) False g show ?thesis by auto
  qed
qed

lemma by_agency_groups:
  "\<forall>g \<in> set (by_agency xs). snd g = filter (\<lambda>b. agency b = fst g) xs"
proof (induction xs rule: rev_induct)
  case Nil
  then show ?case by (simp add: by_agency_def)
next
  case (snoc a xs)
  have 2: "agency a \<in> fst ` set (by_agency xs) \<or> filter (\<lambda>b. agency b = agency a) xs = []"
  proof (cases "agency a \<in> agency ` set xs")
    case True
    then show ?thesis by (simp add: by_agency_key_set)
  next
    case False
    then have "filter (\<lambda>b. agency b = agency a) xs = []"
      by (auto simp: filter_empty_conv image_iff)
    then show ?thesis by simp
  qed
  have 3: "distinct (map fst (by_agency xs))"
    by (simp add: by_agency_keys distinct_first_seen)
  from append_to_groups[OF snoc 2 3] show ?case
    by (simp only: by_agency_snoc)
qed

lemma sizes_append_to:
  "sum_list (map (\<lambda>g. length (snd g)) (append_to k a d)) = Suc (sum_list (map (\<lambda>g. length (snd g)) d))"
  by (induction d) auto

lemma by_agency_sizes: "sum_list (map (\<lambda>g. length (snd g)) (by_agency xs)) = length xs"
proof (induction xs rule: rev_induct)
  case Nil
  show ?case by (simp add: by_agency_def)
next
  case (snoc a xs)
  then show ?case by (simp add: by_agency_snoc sizes_append_to)
qed



text \<open>
  Claim C9. The report of no alerts is the fixed message. For a non-empty sequence the
  report is the header followed by one block per group of \<open>by_agency\<close>; the groups are
  keyed by the sources in first-seen order, each group holds exactly the alerts of its
  source in their order in the input, and the group sizes add up to the number of alerts.
\<close>

theorem generate_alert_report_groups:
  "generate_alert_report now [] = ''No alerts found for today.''
   \<and> (alerts \<noteq> [] \<longrightarrow> generate_alert_report now alerts
         = join newline (report_header now @ concat (map report_agency (by_agency alerts))))
   \<and> map fst (by_agency alerts) = first_seen (map agency alerts)
   \<and> (\<forall>g \<in> set (by_agency alerts). snd g = filter (\<lambda>a. agency a = fst g) alerts)
   \<and> sum_list (map (\<lambda>g. length (snd g)) (by_agency alerts)) = length alerts"
  using by_agency_keys[of alerts] by_agency_groups[of alerts] by_agency_sizes[of alerts]
  by (simp add: generate_alert_report_def)

lemma by_agency_example:
  "by_agency example_alerts =
    [(''ICRA'', [alert_of ''ICRA'' ''Acme Finance'' ''04/11/2026'' ''Upgraded'',
                 alert_of ''ICRA'' ''Bharat Leasing'' ''04/11/2026'' ''Reaffirmed'']),
     (''SEBI'', [alert_of ''SEBI'' ''SEBI Announcement'' ''04 Nov 2026'' ''Circular''])]"
  by (simp add: by_agency_def example_alerts_def alert_of_def)

theorem generate_alert_report_groups_witness:
  "example_alerts \<noteq> []
   \<and> (''ICRA'', [alert_of ''ICRA'' ''Acme Finance'' ''04/11/2026'' ''Upgraded'',
                 alert_of ''ICRA'' ''Bharat Leasing'' ''04/11/2026'' ''Reaffirmed'']) \<in> set (by_agency example_alerts)
   \<and> [alert_of ''ICRA'' ''Acme Finance'' ''04/11/2026'' ''Upgraded'',
       alert_of ''ICRA'' ''Bharat Leasing'' ''04/11/2026'' ''Reaffirmed'']
       = filter (\<lambda>a. agency a = ''ICRA'') example_alerts
   \<and> map fst (by_agency example_alerts) = [''ICRA'', ''SEBI'']
   \<and> generate_alert_report d0 example_alerts
       = join newline (report_header d0 @ concat (map report_agency (by_agency example_alerts)))"
proof -
  have ne: "example_alerts \<noteq> []" by (simp add: example_alerts_def)
  have m: "(''ICRA'', [alert_of ''ICRA'' ''Acme Finance'' ''04/11/2026'' ''Upgraded'',
                 alert_of ''ICRA'' ''Bharat Leasing'' ''04/11/2026'' ''Reaffirmed'']) \<in> set (by_agency example_alerts)"
    by (simp add: by_agency_example)
  have k: "map fst (by_agency example_alerts) = [''ICRA'', ''SEBI'']"
    by (simp add: by_agency_example)
  from generate_alert_report_groups[of d0 example_alerts] ne m k show ?thesis
    by fastforce
qed

section \<open>Properties of the field extractor\<close>

subsection \<open>The extractor never raises\<close>

lemma extract_returns: "\<exists>t. extract_text_from_element L element selectors = Inr t"
  by (induction selectors) (auto split: sum.splits option.splits)

lemma extract_empty:
  "\<forall>sel \<in> set selectors. \<forall>t. try_selector L element sel \<noteq> Inr (Some t)
   \<Longrightarrow> extract_text_from_element L element selectors = Inr ''''"
  by (induction selectors) (auto split: sum.splits option.splits)

text \<open>
  Claim C6. Whatever the lookups do on the fragment, raising included, and whatever the
  hint list, \<open>extract_text_from_element\<close> returns a string; when no hint yields a
  match (each attempt raises or finds nothing) the string is empty.
\<close>

theorem extract_text_never_raises:
  "(\<exists>t. extract_text_from_element L element selectors = Inr t)
   \<and> ((\<forall>sel \<in> set selectors. \<forall>t. try_selector L element sel \<noteq> Inr (Some t))
        \<longrightarrow> extract_text_from_element L element selectors = Inr '''')"
  using extract_returns[of L element selectors] extract_empty[of selectors L element] by blast

theorem extract_text_never_raises_witness:
  "extract_text_from_element raising () [''company'', ''entity'', ''name''] = Inr ''''"
proof -
  have "\<forall>sel \<in> set [''company'', ''entity'', ''name'']. \<forall>t. try_selector raising () sel \<noteq> Inr (Some t)"
    by (simp add: try_selector_def raising_def)
  with extract_text_never_raises[of raising "()" "[''company'', ''entity'', ''name'']"]
  show ?thesis by blast
qed



subsection \<open>The extractor and the prioritized matchers\<close>























section \<open>Properties of the adapters\<close>

subsection \<open>The record of calls\<close>

lemma snapshots_append: "snapshots (xs @ ys) = snapshots xs @ snapshots ys"
  by (induction xs rule: snapshots.induct) auto

lemma new_calls_append: "calls s' = calls s @ cs \<Longrightarrow> new_calls s s' = cs"
  by (simp add: new_calls_def)

lemma continues_refl: "continues s s"
  by (simp add: continues_def)

lemma continues_trans: "continues s s' \<Longrightarrow> continues s' s'' \<Longrightarrow> continues s s''"
  by (auto simp: continues_def)

lemma new_calls_trans:
  "continues s s' \<Longrightarrow> continues s' s'' \<Longrightarrow> new_calls s s'' = new_calls s s' @ new_calls s' s''"
  by (auto simp: continues_def new_calls_def)

lemma quietD:
  assumes "quiet m" "m s = (r, s')"
  shows "continues s s'" "snapshots (new_calls s s') = []"
proof -
  from assms obtain cs where cs: "calls s' = calls s @ cs" "snapshots cs = []"
    unfolding quiet_def by (metis snd_conv)
  then show "continues s s'" by (auto simp: continues_def)
  from cs show "snapshots (new_calls s s') = []" by (simp add: new_calls_append)
qed

lemma quiet_perform:
  assumes "snapshots [c] = []"
  shows "quiet (perform c op)"
  unfolding quiet_def perform_def using assms by (auto split: prod.splits)

lemma quiet_primitives:
  "quiet (driver_get drv url)" "quiet (find_element drv loc)" "quiet (find_elements drv h loc)"
  "quiet (clear drv h)" "quiet (send_keys drv h keys)" "quiet (click drv h)"
  "quiet (is_enabled drv h)" "quiet (is_displayed drv h)" "quiet (element_text drv h)"
  "quiet (wait_until_presence drv loc)"
  unfolding driver_get_def find_element_def find_elements_def clear_def send_keys_def click_def
    is_enabled_def is_displayed_def element_text_def wait_until_presence_def
  by (rule quiet_perform, simp)+

lemma quiet_execute_script: "quiet (execute_script drv script)"
  unfolding quiet_def execute_script_def by (auto split: prod.splits)

lemma quiet_returnE: "quiet (returnE x)"
  by (simp add: quiet_def returnE_def)

lemma quiet_sleepE: "quiet (sleepE sys n)"
  by (simp add: quiet_def sleepE_def sleep_def)

lemma quiet_bindE:
  assumes "quiet m" "\<And>x. quiet (f x)"
  shows "quiet (bindE m f)"
  unfolding quiet_def
proof
  fix s
  obtain r s1 where m: "m s = (r, s1)" by (cases "m s")
  from assms(1) m obtain cs where cs: "calls s1 = calls s @ cs" "snapshots cs = []"
    unfolding quiet_def by (metis snd_conv)
  show "\<exists>cs. calls (snd (bindE m f s)) = calls s @ cs \<and> snapshots cs = []"
  proof (cases r)
    case (Inl e)
    with m cs show ?thesis by (simp add: bindE_def)
  next
    case (Inr x)
    from assms(2)[of x] obtain cs' where "calls (snd (f x s1)) = calls s1 @ cs'" "snapshots cs' = []"
      unfolding quiet_def by blast
    with m cs Inr show ?thesis by (simp add: bindE_def snapshots_append)
  qed
qed

lemma quiet_except:
  assumes "quiet m" "quiet h"
  shows "quiet (except E m h)"
  unfolding quiet_def
proof
  fix s
  obtain r s1 where m: "m s = (r, s1)" by (cases "m s")
  from assms(1) m obtain cs where cs: "calls s1 = calls s @ cs" "snapshots cs = []"
    unfolding quiet_def by (metis snd_conv)
  from assms(2) obtain cs' where "calls (snd (h s1)) = calls s1 @ cs'" "snapshots cs' = []"
    unfolding quiet_def by blast
  with m cs show "\<exists>cs. calls (snd (except E m h s)) = calls s @ cs \<and> snapshots cs = []"
    by (cases r) (simp_all add: except_def snapshots_append)
qed

lemma quiet_if: "quiet a \<Longrightarrow> quiet b \<Longrightarrow> quiet (if c then a else b)"
  by simp

lemmas quiet_intros = quiet_primitives quiet_execute_script quiet_returnE quiet_sleepE
  quiet_bindE quiet_except quiet_if

lemma quiet_fill: "quiet (fill drv loc keys)"
  unfolding fill_def by (intro quiet_intros)

lemma quiet_press: "quiet (press sys drv loc)"
  unfolding press_def by (intro quiet_intros)

lemma quiet_open_page: "quiet (open_page sys drv url n)"
  unfolding open_page_def by (intro quiet_intros)

lemma quiet_next_page: "quiet (next_page sys drv xp)"
  unfolding next_page_def by (intro quiet_intros)

lemma quiet_load_more_step: "quiet (load_more_step sys drv)"
  unfolding load_more_step_def by (intro quiet_intros)

lemma quiet_scroll_step: "quiet (scroll_step sys drv)"
  unfolding scroll_step_def by (intro quiet_intros)

lemma quiet_icra_date_filter: "quiet (icra_date_filter sys drv today)"
  unfolding icra_date_filter_def by (intro quiet_intros quiet_fill quiet_press)

lemma quiet_sebi_date_filter: "quiet (sebi_date_filter sys drv today)"
  unfolding sebi_date_filter_def by (intro quiet_intros quiet_fill quiet_press)

lemma quiet_bse_date_fields: "quiet (bse_date_fields drv current_date)"
  unfolding bse_date_fields_def by (intro quiet_intros quiet_fill)

lemma quiet_select_option: "quiet (select_option drv segment opts)"
proof (induction opts)
  case Nil
  show ?case by (simp add: quiet_returnE)
next
  case (Cons opt opts)
  show ?case unfolding select_option.simps by (intro quiet_intros Cons)
qed

lemma quiet_bse_select_segment: "quiet (bse_select_segment drv segment)"
  unfolding bse_select_segment_def by (intro quiet_intros quiet_select_option)

lemma quiet_bse_submit: "quiet (bse_submit sys drv)"
  unfolding bse_submit_def by (intro quiet_intros quiet_press)

lemma page_source_calls:
  assumes "page_source drv s = (r, s')"
  shows "continues s s'"
    "snapshots (new_calls s s') = (case r of Inl e \<Rightarrow> [] | Inr soup \<Rightarrow> [soup])"
  using assms unfolding page_source_def continues_def new_calls_def
  by (auto split: prod.splits sum.splits)



subsection \<open>Rows\<close>

lemma extract_bs4_returns: "\<exists>t. extract_text_from_element bs4 row hints = Inr t"
  by (induction hints) (auto split: sum.splits option.splits)

lemma stems_from_rows_refl: "stems_from_rows ok rows acc acc"
  by (simp add: stems_from_rows_def)

lemma for_each_Cons: "for_each body (r # rs) acc = for_each body rs (body r acc)"
  by (simp add: for_each_def)

lemma for_each_Nil: "for_each body [] acc = acc"
  by (simp add: for_each_def)

lemma for_each_stems:
  assumes "\<And>row acc. row \<in> set rows \<Longrightarrow> stems_from_rows ok [row] acc (body row acc)"
  shows "stems_from_rows ok rows acc (for_each body rows acc)"
  using assms
proof (induction rows arbitrary: acc)
  case Nil
  show ?case by (simp add: for_each_Nil stems_from_rows_def)
next
  case (Cons r rs)
  have 1: "stems_from_rows ok [r] acc (body r acc)" using Cons.prems by simp
  have 2: "stems_from_rows ok rs (body r acc) (for_each body rs (body r acc))"
    using Cons.IH[of "body r acc"] Cons.prems by simp
  from 1 2 show ?case
    unfolding for_each_Cons stems_from_rows_def by fastforce
qed

lemma emitted_new_alert:
  "emitted today (new_alert ag co dt ac today) =
     (co \<noteq> [] \<and> is_today_date today dt \<and> (ag = ''SEBI'' \<longrightarrow> co = ''SEBI Announcement''))"
  by (simp add: emitted_def new_alert_def)

lemma new_alert_sel:
  "agency (new_alert ag co dt ac now) = ag" "company (new_alert ag co dt ac now) = co"
  "date (new_alert ag co dt ac now) = dt" "action (new_alert ag co dt ac now) = ac"
  by (simp_all add: new_alert_def)

lemma hinted_item_stems:
  assumes "ag \<noteq> ''SEBI''"
  shows "stems_from_rows (dated_by (hinted_date dh) today) [row] acc (hinted_item ag ch dh ah today row acc)"
proof -
  obtain c where c: "extract_text_from_element bs4 row ch = Inr c"
    using extract_bs4_returns by blast
  obtain d where d: "extract_text_from_element bs4 row dh = Inr d"
    using extract_bs4_returns by blast
  obtain ac where ac: "extract_text_from_element bs4 row ah = Inr ac"
    using extract_bs4_returns by blast
  show ?thesis
    using assms
    by (auto simp: hinted_item_def c d ac stems_from_rows_def dated_by_def emitted_new_alert
        hinted_date_def new_alert_sel)
qed

lemma icra_page_stems:
  "stems_from_rows (dated_by (hinted_date [''date'', ''rated-on'']) today) (icra_rating_rows soup)
     acc (icra_page today soup acc)"
  unfolding icra_page_def icra_row_def
  by (rule for_each_stems) (rule hinted_item_stems, simp)

lemma careedge_page_stems:
  "stems_from_rows (dated_by (hinted_date [''date'', ''rated-on'', ''timestamp'']) today)
     (careedge_rating_items soup) acc (careedge_page today soup acc)"
  unfolding careedge_page_def careedge_item_def
  by (rule for_each_stems) (rule hinted_item_stems, simp)

lemma crisil_page_stems:
  "stems_from_rows (dated_by (hinted_date [''date'', ''rated-on'', ''timestamp'']) today)
     (crisil_rating_items soup) acc (crisil_page today soup acc)"
  unfolding crisil_page_def crisil_item_def
  by (rule for_each_stems) (rule hinted_item_stems, simp)

lemma acuite_page_stems:
  "stems_from_rows (dated_by (cell_text 0) today) (table_rows soup) acc (acuite_page today soup acc)"
  unfolding acuite_page_def
  by (rule for_each_stems)
     (auto simp: acuite_row_def Let_def stems_from_rows_def dated_by_def emitted_new_alert cell_text_def
       new_alert_sel)

lemma sebi_page_stems:
  "stems_from_rows (dated_by (cell_text 0) today) (table_rows soup) acc (sebi_page today soup acc)"
  unfolding sebi_page_def
  by (rule for_each_stems)
     (auto simp: sebi_row_def Let_def stems_from_rows_def dated_by_def emitted_new_alert cell_text_def
       new_alert_sel)


lemma current_date_is_today: "is_today_date today (strftime ''%d/%m/%Y'' today)"
proof -
  have "strftime ''%d/%m/%Y'' today \<in> set (today_formats today)"
    by (simp add: today_formats_def)
  then have "strftime ''%d/%m/%Y'' today \<in> set (todayVariants today)"
    by (simp only: today_formats_eq)
  from embedded[OF this, of "[]" "[]"] show ?thesis by simp
qed

lemma bse_page_stems:
  "stems_from_rows (bse_dated today) (table_rows soup) acc
     (bse_page segment (dd_slash_mm_slash_yyyy (get_current_date_str today)) today soup acc)"
  unfolding bse_page_def
proof (rule for_each_stems)
  fix row acc
  have "''BSE ('' @ segment @ '')'' \<noteq> ''SEBI''" by simp
  then show "stems_from_rows (bse_dated today) [row] acc
     (bse_row segment (dd_slash_mm_slash_yyyy (get_current_date_str today)) today row acc)"
    using current_date_is_today[of today]
    by (auto simp: bse_row_def Let_def stems_from_rows_def bse_dated_def emitted_new_alert
        new_alert_sel get_current_date_str_def simp del: strftime.simps)
qed




subsection \<open>The rows of NSE\<close>


lemma nse_assign_date:
  assumes "nse_assign row vars = (r, vars')" "v_date_text vars' = Some d"
  shows "v_date_text vars = Some d \<or> nse_date row d"
proof (cases "tag_name row = ''tr''")
  case True
  with assms show ?thesis
    by (auto simp: nse_assign_def Let_def nse_date_def cell_text_def split: if_splits)
next
  case False
  obtain c where c: "extract_text_from_element bs4 row [''company'', ''symbol''] = Inr c"
    using extract_bs4_returns by blast
  obtain sj where sj: "extract_text_from_element bs4 row [''subject'', ''title''] = Inr sj"
    using extract_bs4_returns by blast
  obtain dt where dt: "extract_text_from_element bs4 row [''date'', ''time''] = Inr dt"
    using extract_bs4_returns by blast
  from False assms show ?thesis
    by (auto simp: nse_assign_def c sj dt nse_date_def hinted_date_def
        simp del: extract_text_from_element.simps)
qed

lemma nse_emit_alert:
  assumes "nse_emit segment today vars alerts = Inr alerts'"
  shows "alerts' = alerts \<or> (\<exists>c d sj. v_company_name vars = Some c \<and> v_date_text vars = Some d
     \<and> v_subject vars = Some sj \<and> c \<noteq> [] \<and> is_today_date today d
     \<and> alerts' = alerts @ [new_alert (''NSE ('' @ segment @ '')'') c d sj today])"
  using assms
  by (auto simp: nse_emit_def read_local_def split: option.splits if_splits)

lemma nse_row_inv:
  assumes "nse_inv today R st"
  shows "nse_inv today (insert row R) (nse_row segment today row st)"
proof -
  obtain vars alerts where st: "st = (vars, alerts)" by (cases st)
  obtain r vars' where a: "nse_assign row vars = (r, vars')" by (cases "nse_assign row vars")
  from assms st have old: "\<forall>d. v_date_text vars = Some d \<longrightarrow> (\<exists>row \<in> R. nse_date row d)"
    "\<forall>a \<in> set alerts. \<exists>row \<in> R. nse_dated today row a"
    by (auto simp: nse_inv_def)
  have dates: "\<forall>d. v_date_text vars' = Some d \<longrightarrow> (\<exists>row' \<in> insert row R. nse_date row' d)"
    using nse_assign_date[OF a] old(1) by blast
  have olda: "\<forall>a \<in> set alerts. \<exists>row' \<in> insert row R. nse_dated today row' a"
    using old(2) by blast
  have keep: "nse_inv today (insert row R) (vars', alerts)"
    using dates olda by (simp add: nse_inv_def)
  show ?thesis
  proof (cases r)
    case (Inl e)
    with a st keep show ?thesis by (simp add: nse_row_def)
  next
    case (Inr u)
    show ?thesis
    proof (cases "nse_emit segment today vars' alerts")
      case (Inl e)
      with a st keep Inr show ?thesis by (simp add: nse_row_def)
    next
      case emit: (Inr alerts')
      from nse_emit_alert[OF emit] show ?thesis
      proof
        assume "alerts' = alerts"
        with a st keep Inr emit show ?thesis by (simp add: nse_row_def)
      next
        assume "\<exists>c d sj. v_company_name vars' = Some c \<and> v_date_text vars' = Some d
           \<and> v_subject vars' = Some sj \<and> c \<noteq> [] \<and> is_today_date today d
           \<and> alerts' = alerts @ [new_alert (''NSE ('' @ segment @ '')'') c d sj today]"
        then obtain c d sj where n: "v_date_text vars' = Some d" "c \<noteq> []" "is_today_date today d"
          "alerts' = alerts @ [new_alert (''NSE ('' @ segment @ '')'') c d sj today]" by blast
        from dates n(1) obtain row' where row': "row' \<in> insert row R" "nse_date row' d" by blast
        have "''NSE ('' @ segment @ '')'' \<noteq> ''SEBI''" by simp
        with n(2,3) row'(2)
        have "nse_dated today row' (new_alert (''NSE ('' @ segment @ '')'') c d sj today)"
          by (simp add: nse_dated_def emitted_new_alert new_alert_sel)
        with row'(1) olda dates n(4) have "nse_inv today (insert row R) (vars', alerts')"
          by (auto simp: nse_inv_def)
        with a st Inr emit show ?thesis by (simp add: nse_row_def)
      qed
    qed
  qed
qed




lemma nse_rows_inv:
  "nse_inv today R st \<Longrightarrow> nse_inv today (R \<union> set rows) (for_each (nse_row segment today) rows st)"
proof (induction rows arbitrary: R st)
  case Nil
  then show ?case by (simp add: for_each_Nil)
next
  case (Cons row rows)
  have e: "insert row R \<union> set rows = R \<union> set (row # rows)" by auto
  from Cons.IH[OF nse_row_inv[OF Cons.prems, of row segment]]
  show ?case unfolding for_each_Cons e .
qed

lemma nse_page_inv:
  "nse_inv today R st \<Longrightarrow> nse_inv today (R \<union> set (nse_announcement_rows soup)) (nse_page segment today soup st)"
  unfolding nse_page_def by (rule nse_rows_inv)


subsection \<open>The traversal loops\<close>

lemma snapshots_new_calls_trans:
  assumes "continues s s1" "continues s1 s'"
  shows "set (snapshots (new_calls s s')) = set (snapshots (new_calls s s1)) \<union> set (snapshots (new_calls s1 s'))"
  by (simp add: new_calls_trans[OF assms] snapshots_append)

lemma stems_step:
  assumes "continues s s1" "continues s1 s'"
    and "soup \<in> set (snapshots (new_calls s s1))"
    and "stems_from_rows ok (rows_of soup) before mid"
    and "stems_from_snapshots rows_of ok s1 s' mid after"
  shows "stems_from_snapshots rows_of ok s s' before after"
  unfolding stems_from_snapshots_def
proof
  fix a assume "a \<in> set after"
  with assms(5) consider "a \<in> set mid"
    | "\<exists>soup' \<in> set (snapshots (new_calls s1 s')). \<exists>row \<in> set (rows_of soup'). ok row a"
    unfolding stems_from_snapshots_def by blast
  then show "a \<in> set before \<or>
      (\<exists>soup \<in> set (snapshots (new_calls s s')). \<exists>row \<in> set (rows_of soup). ok row a)"
  proof cases
    case 1
    with assms(4) have "a \<in> set before \<or> (\<exists>row \<in> set (rows_of soup). ok row a)"
      unfolding stems_from_rows_def by blast
    with assms(3) show ?thesis
      unfolding snapshots_new_calls_trans[OF assms(1,2)] by blast
  next
    case 2
    then show ?thesis
      unfolding snapshots_new_calls_trans[OF assms(1,2)] by blast
  qed
qed

lemma stems_last:
  assumes "continues s s1" "continues s1 s'"
    and "soup \<in> set (snapshots (new_calls s s1))"
    and "stems_from_rows ok (rows_of soup) before after"
  shows "stems_from_snapshots rows_of ok s s' before after"
proof -
  have "stems_from_snapshots rows_of ok s1 s' after after"
    by (simp add: stems_from_snapshots_def)
  from stems_step[where rows_of=rows_of and ok=ok and soup=soup, OF assms(1,2,3,4) this] show ?thesis .
qed

lemma stems_none: "stems_from_snapshots rows_of ok s s' before []"
  by (simp add: stems_from_snapshots_def)

lemma paged_stems:
  assumes "paged sys drv xp page alerts s = Some y"
    and ext: "\<And>soup acc. stems_from_rows ok (rows_of soup) acc (page soup acc)"
  shows "continues s (snd y) \<and>
         (\<forall>alerts'. fst y = Inr alerts' \<longrightarrow> stems_from_snapshots rows_of ok s (snd y) alerts alerts')"
proof -
  have "(\<forall>soup acc. stems_from_rows ok (rows_of soup) acc (page soup acc)) \<longrightarrow>
     continues s (snd y) \<and>
         (\<forall>alerts'. fst y = Inr alerts' \<longrightarrow> stems_from_snapshots rows_of ok s (snd y) alerts alerts')"
  proof (rule paged.raw_induct[where P = "\<lambda>sys drv xp page alerts s y.
       (\<forall>soup acc. stems_from_rows ok (rows_of soup) acc (page soup acc)) \<longrightarrow>
       continues s (snd y) \<and>
         (\<forall>alerts'. fst y = Inr alerts' \<longrightarrow> stems_from_snapshots rows_of ok s (snd y) alerts alerts')",
       OF _ assms(1)], goal_cases)
    case (1 paged sys drv xp page alerts s y)
    show ?case
    proof
      assume ext: "\<forall>soup acc. stems_from_rows ok (rows_of soup) acc (page soup acc)"
      obtain r0 s1 where ps: "page_source drv s = (r0, s1)" by (cases "page_source drv s")
      note c1 = page_source_calls[OF ps]
      show "continues s (snd y) \<and>
         (\<forall>alerts'. fst y = Inr alerts' \<longrightarrow> stems_from_snapshots rows_of ok s (snd y) alerts alerts')"
      proof (cases r0)
        case (Inl e)
        with 1(2) ps c1 show ?thesis by auto
      next
        case (Inr soup)
        with c1 have soup: "soup \<in> set (snapshots (new_calls s s1))" by simp
        obtain r1 s2 where np: "next_page sys drv xp s1 = (r1, s2)"
          by (cases "next_page sys drv xp s1")
        note c2 = quietD[OF quiet_next_page np]
        note c12 = continues_trans[OF c1(1) c2(1)]
        have soup2: "soup \<in> set (snapshots (new_calls s s2))"
          using soup snapshots_new_calls_trans[OF c1(1) c2(1)] by blast
        show ?thesis
        proof (cases r1)
          case (Inl e)
          with 1(2) ps Inr np c12 show ?thesis by auto
        next
          case adv: (Inr advanced)
          show ?thesis
          proof (cases advanced)
            case True
            with 1(2) ps Inr np adv have rec: "paged sys drv xp page (page soup alerts) s2 = Some y"
              by simp
            from 1(1)[OF rec] ext
            have IH: "continues s2 (snd y)"
              "\<forall>alerts'. fst y = Inr alerts' \<longrightarrow>
                 stems_from_snapshots rows_of ok s2 (snd y) (page soup alerts) alerts'"
              by auto
            from ext have e: "stems_from_rows ok (rows_of soup) alerts (page soup alerts)" by blast
            from stems_step[where rows_of=rows_of and ok=ok and soup=soup, OF c12 IH(1) soup2 e] IH(2) continues_trans[OF c12 IH(1)]
            show ?thesis by blast
          next
            case False
            with 1(2) ps Inr np adv have y: "y = (Inr (page soup alerts), s2)" by simp
            from ext have e: "stems_from_rows ok (rows_of soup) alerts (page soup alerts)" by blast
            from stems_last[where rows_of=rows_of and ok=ok and soup=soup, OF c12 continues_refl soup2 e] c12 y show ?thesis by simp
          qed
        qed
      qed
    qed
  qed
  with ext show ?thesis by blast
qed

lemma load_more_quiet:
  assumes "load_more sys drv s = Some y"
  shows "continues s (snd y) \<and> snapshots (new_calls s (snd y)) = []"
proof (rule load_more.raw_induct[where P = "\<lambda>sys drv s y.
     continues s (snd y) \<and> snapshots (new_calls s (snd y)) = []", OF _ assms], goal_cases)
  case (1 load_more sys drv s y)
  obtain r s1 where st: "load_more_step sys drv s = (r, s1)" by (cases "load_more_step sys drv s")
  note c = quietD[OF quiet_load_more_step st]
  show ?case
  proof (cases r)
    case (Inl e)
    with 1(2) st c show ?thesis by auto
  next
    case (Inr clicked)
    show ?thesis
    proof (cases clicked)
      case True
      with 1(2) st Inr have "load_more sys drv s1 = Some y" by simp
      from 1(1)[OF this] c show ?thesis
        by (auto simp: new_calls_trans snapshots_append intro: continues_trans)
    next
      case False
      with 1(2) st Inr c show ?thesis by auto
    qed
  qed
qed

lemma scroll_quiet:
  assumes "scroll sys drv h s = Some y"
  shows "continues s (snd y) \<and> snapshots (new_calls s (snd y)) = []"
proof (rule scroll.raw_induct[where P = "\<lambda>sys drv h s y.
     continues s (snd y) \<and> snapshots (new_calls s (snd y)) = []", OF _ assms], goal_cases)
  case (1 scroll sys drv h s y)
  obtain r s1 where st: "scroll_step sys drv s = (r, s1)" by (cases "scroll_step sys drv s")
  note c = quietD[OF quiet_scroll_step st]
  show ?case
  proof (cases r)
    case (Inl e)
    with 1(2) st c show ?thesis by auto
  next
    case (Inr new_height)
    show ?thesis
    proof (cases "new_height = h")
      case True
      with 1(2) st Inr c show ?thesis by auto
    next
      case False
      with 1(2) st Inr have "scroll sys drv new_height s1 = Some y" by simp
      from 1(1)[OF this] c show ?thesis
        by (auto simp: new_calls_trans snapshots_append intro: continues_trans)
    qed
  qed
qed


subsection \<open>Outcomes of the adapters\<close>

lemma stemming_error: "continues s s1 \<Longrightarrow> stemming rows_of ok s (Inl e, s1)"
  by (simp add: stemming_def)

lemma stemming_empty: "continues s s1 \<Longrightarrow> stemming rows_of ok s (Inr [], s1)"
  by (simp add: stemming_def stems_from_snapshots_def)

lemma stems_prefix:
  assumes "continues s s1" "continues s1 s'" "stems_from_snapshots rows_of ok s1 s' before after"
  shows "stems_from_snapshots rows_of ok s s' before after"
  using assms(3) unfolding stems_from_snapshots_def snapshots_new_calls_trans[OF assms(1,2)]
  by blast

lemma stemming_prefix:
  assumes "continues s s1" "stemming rows_of ok s1 y"
  shows "stemming rows_of ok s y"
  using assms stems_prefix[OF assms(1), of "snd y" rows_of ok "[]"] continues_trans[OF assms(1)]
  unfolding stemming_def by blast

lemma stemming_bindP_lift:
  assumes "quiet m" "bindP (lift m) f s = Some y"
    and "\<And>x s1. f x s1 = Some y \<Longrightarrow> stemming rows_of ok s1 y"
  shows "stemming rows_of ok s y"
proof -
  obtain r s1 where m: "m s = (r, s1)" by (cases "m s")
  note c = quietD(1)[OF assms(1) m]
  show ?thesis
  proof (cases r)
    case (Inl e)
    with assms(2) m have "y = (Inl e, s1)" by (simp add: bindP_def lift_def)
    with c show ?thesis by (simp add: stemming_error)
  next
    case (Inr x)
    with assms(2) m have "f x s1 = Some y" by (simp add: bindP_def lift_def)
    from stemming_prefix[OF c assms(3)[OF this]] show ?thesis .
  qed
qed

lemma stemming_bindP_quiet:
  assumes "\<And>y0. m s = Some y0 \<Longrightarrow> continues s (snd y0)"
    and "bindP m f s = Some y"
    and "\<And>x s1. f x s1 = Some y \<Longrightarrow> stemming rows_of ok s1 y"
  shows "stemming rows_of ok s y"
proof (cases "m s")
  case None
  with assms(2) show ?thesis by (simp add: bindP_def)
next
  case (Some y0)
  obtain r s1 where y0: "y0 = (r, s1)" by (cases y0)
  from assms(1)[OF Some] y0 have c: "continues s s1" by simp
  show ?thesis
  proof (cases r)
    case (Inl e)
    with assms(2) Some y0 have "y = (Inl e, s1)" by (simp add: bindP_def)
    with c show ?thesis by (simp add: stemming_error)
  next
    case (Inr x)
    with assms(2) Some y0 have "f x s1 = Some y" by (simp add: bindP_def)
    from stemming_prefix[OF c assms(3)[OF this]] show ?thesis .
  qed
qed

lemma stemming_return_empty:
  assumes "return_empty_on_error m s = Some y"
    and "\<And>y0. m s = Some y0 \<Longrightarrow> stemming rows_of ok s y0"
  shows "stemming rows_of ok s y"
proof (cases "m s")
  case None
  with assms(1) show ?thesis by (simp add: return_empty_on_error_def)
next
  case (Some y0)
  obtain r s1 where y0: "y0 = (r, s1)" by (cases y0)
  from assms(2)[OF Some] y0 have g: "stemming rows_of ok s (r, s1)" by simp
  show ?thesis
  proof (cases r)
    case (Inl e)
    with assms(1) Some y0 have "y = (Inr [], s1)" by (simp add: return_empty_on_error_def)
    with g show ?thesis by (simp add: stemming_def stems_from_snapshots_def)
  next
    case (Inr alerts)
    with assms(1) Some y0 have "y = (Inr alerts, s1)" by (simp add: return_empty_on_error_def)
    with g Inr show ?thesis by simp
  qed
qed

lemma stemming_exceptP:
  assumes "exceptP E m [] s = Some y"
    and "\<And>y0. m s = Some y0 \<Longrightarrow> stemming rows_of ok s y0"
  shows "stemming rows_of ok s y"
proof (cases "m s")
  case None
  with assms(1) show ?thesis by (simp add: exceptP_def)
next
  case (Some y0)
  obtain r s1 where y0: "y0 = (r, s1)" by (cases y0)
  from assms(2)[OF Some] y0 have g: "stemming rows_of ok s (r, s1)" by simp
  show ?thesis
  proof (cases r)
    case (Inl e)
    with assms(1) Some y0 have "y = (Inr [], s1) \<or> y = (Inl e, s1)"
      by (simp add: exceptP_def split: if_splits)
    with g show ?thesis by (auto simp: stemming_def stems_from_snapshots_def)
  next
    case (Inr alerts)
    with assms(1) Some y0 have "y = (Inr alerts, s1)" by (simp add: exceptP_def)
    with g Inr show ?thesis by simp
  qed
qed

lemma stemming_snapshot:
  assumes "bindP (lift (page_source drv)) (\<lambda>soup. returnP (page soup [])) s = Some y"
    and "\<And>soup. stems_from_rows ok (rows_of soup) [] (page soup [])"
  shows "stemming rows_of ok s y"
proof -
  obtain r s1 where ps: "page_source drv s = (r, s1)" by (cases "page_source drv s")
  note c = page_source_calls[OF ps]
  show ?thesis
  proof (cases r)
    case (Inl e)
    with assms(1) ps have "y = (Inl e, s1)" by (simp add: bindP_def lift_def)
    with c show ?thesis by (simp add: stemming_error)
  next
    case (Inr soup)
    with assms(1) ps have y: "y = (Inr (page soup []), s1)" by (simp add: bindP_def lift_def returnP_def)
    from c Inr have "soup \<in> set (snapshots (new_calls s s1))" by simp
    from stems_last[where rows_of=rows_of and ok=ok and soup=soup, OF c(1) continues_refl this assms(2)]
      c(1) y show ?thesis by (simp add: stemming_def)
  qed
qed

lemma stemming_paged:
  assumes "paged sys drv xp page [] s = Some y"
    and "\<And>soup acc. stems_from_rows ok (rows_of soup) acc (page soup acc)"
  shows "stemming rows_of ok s y"
  using paged_stems[where rows_of=rows_of and ok=ok, OF assms] by (simp add: stemming_def)


lemma no_session_stemming:
  "stemming rows_of ok s (Inr [], s)"
  by (simp add: stemming_empty continues_refl)

lemma icra_stemming:
  assumes "scrape_icra_ratings sys today s = Some y"
  shows "stemming icra_rating_rows (dated_by (hinted_date [''date'', ''rated-on'']) today) s y"
  using assms unfolding scrape_icra_ratings_def
proof (rule stemming_return_empty)
  fix y0
  assume a: "(case driver sys of None \<Rightarrow> Some (Inr [], s)
     | Some drv \<Rightarrow>
         bindP (lift (open_page sys drv ''https://www.icra.in/Rating/RatingList.aspx'' 3)) (\<lambda>u.
         bindP (lift (icra_date_filter sys drv today)) (\<lambda>u.
         paged sys drv next_or_input (icra_page today) [])) s) = Some y0"
  show "stemming icra_rating_rows (dated_by (hinted_date [''date'', ''rated-on'']) today) s y0"
  proof (cases "driver sys")
    case None
    with a show ?thesis by (auto simp: no_session_stemming)
  next
    case (Some drv)
    with a have "bindP (lift (open_page sys drv ''https://www.icra.in/Rating/RatingList.aspx'' 3)) (\<lambda>u.
         bindP (lift (icra_date_filter sys drv today)) (\<lambda>u.
         paged sys drv next_or_input (icra_page today) [])) s = Some y0" by simp
    then show ?thesis
      by (rule stemming_bindP_lift[OF quiet_open_page])
         (erule stemming_bindP_lift[OF quiet_icra_date_filter],
          erule stemming_paged, rule icra_page_stems)
  qed
qed

lemma sebi_stemming:
  assumes "scrape_sebi_announcements sys today s = Some y"
  shows "stemming table_rows (dated_by (cell_text 0) today) s y"
  using assms unfolding scrape_sebi_announcements_def
proof (rule stemming_return_empty)
  fix y0
  assume a: "(case driver sys of None \<Rightarrow> Some (Inr [], s)
     | Some drv \<Rightarrow>
         bindP (lift (open_page sys drv
           ''https://www.sebi.gov.in/sebiweb/home/HomeAction.do?doListing=yes&sid=1&ssid=1&smid=1'' 3)) (\<lambda>u.
         bindP (lift (sebi_date_filter sys drv today)) (\<lambda>u.
         paged sys drv next_or_input (sebi_page today) [])) s) = Some y0"
  show "stemming table_rows (dated_by (cell_text 0) today) s y0"
  proof (cases "driver sys")
    case None
    with a show ?thesis by (auto simp: no_session_stemming)
  next
    case (Some drv)
    with a have "bindP (lift (open_page sys drv
           ''https://www.sebi.gov.in/sebiweb/home/HomeAction.do?doListing=yes&sid=1&ssid=1&smid=1'' 3)) (\<lambda>u.
         bindP (lift (sebi_date_filter sys drv today)) (\<lambda>u.
         paged sys drv next_or_input (sebi_page today) [])) s = Some y0" by simp
    then show ?thesis
      by (rule stemming_bindP_lift[OF quiet_open_page])
         (erule stemming_bindP_lift[OF quiet_sebi_date_filter],
          erule stemming_paged, rule sebi_page_stems)
  qed
qed

lemma acuite_stemming:
  assumes "scrape_acuite_ratings sys today s = Some y"
  shows "stemming table_rows (dated_by (cell_text 0) today) s y"
  using assms unfolding scrape_acuite_ratings_def
proof (rule stemming_return_empty)
  fix y0
  assume a: "(case driver sys of None \<Rightarrow> Some (Inr [], s)
     | Some drv \<Rightarrow>
         bindP (lift (open_page sys drv ''https://connect.acuite.in/liveratings'' 3)) (\<lambda>u.
         paged sys drv next_or_button (acuite_page today) []) s) = Some y0"
  show "stemming table_rows (dated_by (cell_text 0) today) s y0"
  proof (cases "driver sys")
    case None
    with a show ?thesis by (auto simp: no_session_stemming)
  next
    case (Some drv)
    with a have "bindP (lift (open_page sys drv ''https://connect.acuite.in/liveratings'' 3)) (\<lambda>u.
         paged sys drv next_or_button (acuite_page today) []) s = Some y0" by simp
    then show ?thesis
      by (rule stemming_bindP_lift[OF quiet_open_page])
         (erule stemming_paged, rule acuite_page_stems)
  qed
qed

lemma crisil_stemming:
  assumes "scrape_crisil_ratings sys today s = Some y"
  shows "stemming crisil_rating_items (dated_by (hinted_date [''date'', ''rated-on'', ''timestamp'']) today) s y"
  using assms unfolding scrape_crisil_ratings_def
proof (rule stemming_return_empty)
  fix y0
  assume a: "(case driver sys of None \<Rightarrow> Some (Inr [], s)
     | Some drv \<Rightarrow>
         bindP (lift (open_page sys drv
           ''https://www.crisil.com/en/home/our-businesses/ratings/ratings-actions.html'' 3)) (\<lambda>u.
         bindP (load_more sys drv) (\<lambda>u.
         bindP (lift (page_source drv)) (\<lambda>soup.
         returnP (crisil_page today soup [])))) s) = Some y0"
  show "stemming crisil_rating_items (dated_by (hinted_date [''date'', ''rated-on'', ''timestamp'']) today) s y0"
  proof (cases "driver sys")
    case None
    with a show ?thesis by (auto simp: no_session_stemming)
  next
    case (Some drv)
    with a have "bindP (lift (open_page sys drv
           ''https://www.crisil.com/en/home/our-businesses/ratings/ratings-actions.html'' 3)) (\<lambda>u.
         bindP (load_more sys drv) (\<lambda>u.
         bindP (lift (page_source drv)) (\<lambda>soup.
         returnP (crisil_page today soup [])))) s = Some y0" by simp
    then show ?thesis
    proof (rule stemming_bindP_lift[OF quiet_open_page])
      fix x s1
      assume "bindP (load_more sys drv) (\<lambda>u.
         bindP (lift (page_source drv)) (\<lambda>soup.
         returnP (crisil_page today soup []))) s1 = Some y0"
      then show "stemming crisil_rating_items
          (dated_by (hinted_date [''date'', ''rated-on'', ''timestamp'']) today) s1 y0"
      proof (rule stemming_bindP_quiet[rotated])
        fix x s2
        assume "bindP (lift (page_source drv)) (\<lambda>soup. returnP (crisil_page today soup [])) s2 = Some y0"
        then show "stemming crisil_rating_items
          (dated_by (hinted_date [''date'', ''rated-on'', ''timestamp'']) today) s2 y0"
          by (rule stemming_snapshot) (rule crisil_page_stems)
      next
        fix y1 assume "load_more sys drv s1 = Some y1"
        from load_more_quiet[OF this] show "continues s1 (snd y1)" by simp
      qed
    qed
  qed
qed

lemma careedge_stemming:
  assumes "scrape_careedge_ratings sys today s = Some y"
  shows "stemming careedge_rating_items (dated_by (hinted_date [''date'', ''rated-on'', ''timestamp'']) today) s y"
  using assms unfolding scrape_careedge_ratings_def
proof (rule stemming_return_empty)
  fix y0
  assume a: "(case driver sys of None \<Rightarrow> Some (Inr [], s)
     | Some drv \<Rightarrow>
         bindP (lift (open_page sys drv ''https://www.careratings.com/'' 3)) (\<lambda>u.
         exceptP TimeoutException
           (bindP (lift (wait_until_presence drv (ByClassName ''recent-ratings''))) (\<lambda>recent_ratings_section.
            bindP (lift (execute_script drv scroll_height)) (\<lambda>last_height.
            bindP (scroll sys drv last_height) (\<lambda>u.
            bindP (lift (page_source drv)) (\<lambda>soup.
            returnP (careedge_page today soup []))))))
           []) s) = Some y0"
  let ?G = "stemming careedge_rating_items (dated_by (hinted_date [''date'', ''rated-on'', ''timestamp'']) today)"
  show "?G s y0"
  proof (cases "driver sys")
    case None
    with a show ?thesis by (auto simp: no_session_stemming)
  next
    case (Some drv)
    with a have "bindP (lift (open_page sys drv ''https://www.careratings.com/'' 3)) (\<lambda>u.
         exceptP TimeoutException
           (bindP (lift (wait_until_presence drv (ByClassName ''recent-ratings''))) (\<lambda>recent_ratings_section.
            bindP (lift (execute_script drv scroll_height)) (\<lambda>last_height.
            bindP (scroll sys drv last_height) (\<lambda>u.
            bindP (lift (page_source drv)) (\<lambda>soup.
            returnP (careedge_page today soup []))))))
           []) s = Some y0" by simp
    then show ?thesis
    proof (rule stemming_bindP_lift[OF quiet_open_page])
      fix x s1
      assume "exceptP TimeoutException
           (bindP (lift (wait_until_presence drv (ByClassName ''recent-ratings''))) (\<lambda>recent_ratings_section.
            bindP (lift (execute_script drv scroll_height)) (\<lambda>last_height.
            bindP (scroll sys drv last_height) (\<lambda>u.
            bindP (lift (page_source drv)) (\<lambda>soup.
            returnP (careedge_page today soup []))))))
           [] s1 = Some y0"
      then show "?G s1 y0"
      proof (rule stemming_exceptP)
        fix y1
        assume "bindP (lift (wait_until_presence drv (ByClassName ''recent-ratings''))) (\<lambda>recent_ratings_section.
            bindP (lift (execute_script drv scroll_height)) (\<lambda>last_height.
            bindP (scroll sys drv last_height) (\<lambda>u.
            bindP (lift (page_source drv)) (\<lambda>soup.
            returnP (careedge_page today soup []))))) s1 = Some y1"
        then show "?G s1 y1"
        proof (rule stemming_bindP_lift[OF quiet_primitives(10)])
          fix h s2
          assume "bindP (lift (execute_script drv scroll_height)) (\<lambda>last_height.
            bindP (scroll sys drv last_height) (\<lambda>u.
            bindP (lift (page_source drv)) (\<lambda>soup.
            returnP (careedge_page today soup [])))) s2 = Some y1"
          then show "?G s2 y1"
          proof (rule stemming_bindP_lift[OF quiet_execute_script])
            fix last_height s3
            assume "bindP (scroll sys drv last_height) (\<lambda>u.
              bindP (lift (page_source drv)) (\<lambda>soup.
              returnP (careedge_page today soup []))) s3 = Some y1"
            then show "?G s3 y1"
            proof (rule stemming_bindP_quiet[rotated])
              fix x s4
              assume "bindP (lift (page_source drv)) (\<lambda>soup. returnP (careedge_page today soup [])) s4 = Some y1"
              then show "?G s4 y1"
                by (rule stemming_snapshot) (rule careedge_page_stems)
            next
              fix y2 assume "scroll sys drv last_height s3 = Some y2"
              from scroll_quiet[OF this] show "continues s3 (snd y2)" by simp
            qed
          qed
        qed
      qed
    qed
  qed
qed


subsection \<open>The segments of BSE and NSE\<close>

lemma shot_page_source: "shot s (page_source drv s)"
proof -
  obtain r s1 where ps: "page_source drv s = (r, s1)" by (cases "page_source drv s")
  from page_source_calls[OF ps] ps show ?thesis by (cases r) (auto simp: shot_def)
qed

lemma shot_after_quiet:
  assumes "quiet m" "\<And>x s1. shot s1 (f x s1)"
  shows "shot s (bindE m f s)"
proof -
  obtain r s1 where m: "m s = (r, s1)" by (cases "m s")
  note c = quietD(1)[OF assms(1) m]
  show ?thesis
  proof (cases r)
    case (Inl e)
    with m c show ?thesis by (simp add: bindE_def shot_def)
  next
    case (Inr x)
    from assms(2)[of s1 x] have f: "continues s1 (snd (f x s1))"
      "\<forall>soup. fst (f x s1) = Inr soup \<longrightarrow> soup \<in> set (snapshots (new_calls s1 (snd (f x s1))))"
      by (auto simp: shot_def)
    from f(2) snapshots_new_calls_trans[OF c f(1)]
    have "\<forall>soup. fst (f x s1) = Inr soup \<longrightarrow> soup \<in> set (snapshots (new_calls s (snd (f x s1))))"
      by blast
    with continues_trans[OF c f(1)] m Inr show ?thesis by (simp add: bindE_def shot_def)
  qed
qed

lemma stems_trans:
  assumes "continues s s1" "continues s1 s2"
    and "stems_from_snapshots rows_of ok s s1 a0 a1"
    and "stems_from_snapshots rows_of ok s1 s2 a1 a2"
  shows "stems_from_snapshots rows_of ok s s2 a0 a2"
  using assms(3,4) unfolding stems_from_snapshots_def snapshots_new_calls_trans[OF assms(1,2)]
  by blast

lemma bse_segment_stems:
  assumes "bse_segment sys drv today (dd_slash_mm_slash_yyyy (get_current_date_str today)) segment
     (alerts, s) = (alerts', s')"
  shows "continues s s' \<and> stems_from_snapshots table_rows (bse_dated today) s s' alerts alerts'"
proof -
  let ?m = "bindE (bse_select_segment drv segment) (\<lambda>u.
           bindE (bse_submit sys drv) (\<lambda>u. page_source drv))"
  have sh: "shot s (?m s)"
    by (intro shot_after_quiet quiet_bse_select_segment quiet_bse_submit shot_page_source)
  obtain r s1 where m: "?m s = (r, s1)" by (cases "?m s")
  show ?thesis
  proof (cases r)
    case (Inl e)
    with assms m have "alerts' = alerts" "s' = s1" by (simp_all add: bse_segment_def)
    with sh m show ?thesis by (simp add: shot_def stems_from_snapshots_def)
  next
    case (Inr soup)
    with assms m have e: "s' = s1"
      "alerts' = bse_page segment (dd_slash_mm_slash_yyyy (get_current_date_str today)) today soup alerts"
      by (simp_all add: bse_segment_def)
    from sh m Inr have c: "continues s s1" "soup \<in> set (snapshots (new_calls s s1))"
      by (simp_all add: shot_def)
    from stems_last[where rows_of=table_rows and ok="bse_dated today" and soup=soup,
        OF c(1) continues_refl c(2) bse_page_stems[of today soup alerts segment]] c(1) e
    show ?thesis by simp
  qed
qed

lemma bse_stemming:
  assumes "scrape_bse_announcements sys today s = Some y"
  shows "stemming table_rows (bse_dated today) s y"
  using assms unfolding scrape_bse_announcements_def
proof (rule stemming_return_empty)
  fix y0
  let ?cd = "dd_slash_mm_slash_yyyy (get_current_date_str today)"
  assume a: "(case driver sys of None \<Rightarrow> Some (Inr [], s)
     | Some drv \<Rightarrow>
         (let current_date = dd_slash_mm_slash_yyyy (get_current_date_str today) in
          bindP (lift (open_page sys drv ''https://www.bseindia.com/corporates/ann.html'' 3)) (\<lambda>u.
          bindP (lift (bse_date_fields drv current_date)) (\<lambda>u s1.
            (case for_each (bse_segment sys drv today current_date) [''Equity'', ''Debt''] ([], s1) of
               (alerts, s2) \<Rightarrow> Some (Inr alerts, s2)))) s)) = Some y0"
  show "stemming table_rows (bse_dated today) s y0"
  proof (cases "driver sys")
    case None
    with a show ?thesis by (auto simp: no_session_stemming)
  next
    case (Some drv)
    with a have "bindP (lift (open_page sys drv ''https://www.bseindia.com/corporates/ann.html'' 3)) (\<lambda>u.
          bindP (lift (bse_date_fields drv ?cd)) (\<lambda>u s1.
            (case for_each (bse_segment sys drv today ?cd) [''Equity'', ''Debt''] ([], s1) of
               (alerts, s2) \<Rightarrow> Some (Inr alerts, s2)))) s = Some y0" by (simp add: Let_def)
    then show ?thesis
    proof (rule stemming_bindP_lift[OF quiet_open_page])
      fix x s1
      assume "bindP (lift (bse_date_fields drv ?cd)) (\<lambda>u s1.
            (case for_each (bse_segment sys drv today ?cd) [''Equity'', ''Debt''] ([], s1) of
               (alerts, s2) \<Rightarrow> Some (Inr alerts, s2))) s1 = Some y0"
      then show "stemming table_rows (bse_dated today) s1 y0"
      proof (rule stemming_bindP_lift[OF quiet_bse_date_fields])
        fix x s2
        assume b: "(case for_each (bse_segment sys drv today ?cd) [''Equity'', ''Debt''] ([], s2) of
               (alerts, s3) \<Rightarrow> Some (Inr alerts, s3)) = Some y0"
        obtain a1 s3 where 1: "bse_segment sys drv today ?cd ''Equity'' ([], s2) = (a1, s3)"
          by (cases "bse_segment sys drv today ?cd ''Equity'' ([], s2)")
        obtain a2 s4 where 2: "bse_segment sys drv today ?cd ''Debt'' (a1, s3) = (a2, s4)"
          by (cases "bse_segment sys drv today ?cd ''Debt'' (a1, s3)")
        from b 1 2 have y0: "y0 = (Inr a2, s4)"
          by (simp add: for_each_Cons for_each_Nil)
        note p1 = bse_segment_stems[OF 1]
        note p2 = bse_segment_stems[OF 2]
        from stems_trans[where rows_of=table_rows and ok="bse_dated today", of s2 s3 s4 "[]" a1 a2]
          p1 p2 continues_trans[of s2 s3 s4] y0
        show "stemming table_rows (bse_dated today) s2 y0"
          by (simp add: stemming_def)
      qed
    qed
  qed
qed


lemma nse_inv_mono:
  assumes "nse_inv today R st" "R \<subseteq> R'"
  shows "nse_inv today R' st"
proof -
  obtain vars alerts where st: "st = (vars, alerts)" by (cases st)
  from assms(1) st have d: "\<forall>d. v_date_text vars = Some d \<longrightarrow> (\<exists>row \<in> R. nse_date row d)"
    by (simp add: nse_inv_def)
  from assms(1) st have a: "\<forall>a \<in> set alerts. \<exists>row \<in> R. nse_dated today row a"
    by (simp add: nse_inv_def)
  from d assms(2) have d2: "\<forall>d. v_date_text vars = Some d \<longrightarrow> (\<exists>row \<in> R'. nse_date row d)"
    by blast
  from a assms(2) have a2: "\<forall>a \<in> set alerts. \<exists>row \<in> R'. nse_dated today row a"
    by blast
  from d2 a2 st show ?thesis by (simp add: nse_inv_def)
qed

lemma rows_seen_mono:
  assumes "continues s0 s" "continues s s'"
  shows "rows_seen rows_of s0 s \<subseteq> rows_seen rows_of s0 s'"
  unfolding rows_seen_def snapshots_new_calls_trans[OF assms] by blast

lemma rows_seen_snapshot:
  assumes "continues s0 s" "continues s s'" "soup \<in> set (snapshots (new_calls s s'))"
  shows "set (rows_of soup) \<subseteq> rows_seen rows_of s0 s'"
  using assms(3) unfolding rows_seen_def snapshots_new_calls_trans[OF assms(1,2)] by blast

lemma nse_segment_inv:
  assumes "nse_segment sys drv today segment (st, s) = (st', s')"
    and "continues s0 s" "nse_inv today (rows_seen nse_announcement_rows s0 s) st"
  shows "continues s0 s' \<and> nse_inv today (rows_seen nse_announcement_rows s0 s') st'"
proof -
  let ?m = "bindE (press sys drv (ByXPath (nse_tab segment))) (\<lambda>u. page_source drv)"
  have sh: "shot s (?m s)"
    by (intro shot_after_quiet quiet_press shot_page_source)
  obtain r s1 where m: "?m s = (r, s1)" by (cases "?m s")
  from sh m have c: "continues s s1" by (simp add: shot_def)
  note c0 = continues_trans[OF assms(2) c]
  show ?thesis
  proof (cases r)
    case (Inl e)
    with assms(1) m have e: "st' = st" "s' = s1" by (simp_all add: nse_segment_def)
    from nse_inv_mono[OF assms(3) rows_seen_mono[OF assms(2) c]] c0 e show ?thesis by simp
  next
    case (Inr soup)
    with assms(1) m have e: "st' = nse_page segment today soup st" "s' = s1"
      by (simp_all add: nse_segment_def)
    from sh m Inr have "soup \<in> set (snapshots (new_calls s s1))" by (simp add: shot_def)
    from rows_seen_snapshot[OF assms(2) c this]
    have "set (nse_announcement_rows soup) \<subseteq> rows_seen nse_announcement_rows s0 s1" .
    with rows_seen_mono[OF assms(2) c, of nse_announcement_rows]
    have "rows_seen nse_announcement_rows s0 s \<union> set (nse_announcement_rows soup)
       \<subseteq> rows_seen nse_announcement_rows s0 s1" by blast
    from nse_inv_mono[OF nse_page_inv[OF assms(3)] this] c0 e show ?thesis by simp
  qed
qed

lemma nse_inv_start: "nse_inv today R (unbound, [])"
  by (simp add: nse_inv_def unbound_def)

lemma nse_stemming:
  assumes "scrape_nse_announcements sys today s = Some y"
  shows "stemming nse_announcement_rows (nse_dated today) s y"
  using assms unfolding scrape_nse_announcements_def
proof (rule stemming_return_empty)
  fix y0
  assume a: "(case driver sys of None \<Rightarrow> Some (Inr [], s)
     | Some drv \<Rightarrow>
         bindP (lift (open_page sys drv
           ''https://www.nseindia.com/companies-listing/corporate-filings-announcements'' 5)) (\<lambda>u s1.
           (case for_each (nse_segment sys drv today) [''Equity'', ''Debt''] ((unbound, []), s1) of
              ((vars, alerts), s2) \<Rightarrow> Some (Inr alerts, s2))) s) = Some y0"
  show "stemming nse_announcement_rows (nse_dated today) s y0"
  proof (cases "driver sys")
    case None
    with a show ?thesis by (auto simp: no_session_stemming)
  next
    case (Some drv)
    with a have "bindP (lift (open_page sys drv
           ''https://www.nseindia.com/companies-listing/corporate-filings-announcements'' 5)) (\<lambda>u s1.
           (case for_each (nse_segment sys drv today) [''Equity'', ''Debt''] ((unbound, []), s1) of
              ((vars, alerts), s2) \<Rightarrow> Some (Inr alerts, s2))) s = Some y0" by simp
    then show ?thesis
    proof (rule stemming_bindP_lift[OF quiet_open_page])
      fix x s1
      assume b: "(case for_each (nse_segment sys drv today) [''Equity'', ''Debt''] ((unbound, []), s1) of
              ((vars, alerts), s2) \<Rightarrow> Some (Inr alerts, s2)) = Some y0"
      obtain st1 s2 where 1: "nse_segment sys drv today ''Equity'' ((unbound, []), s1) = (st1, s2)"
        by (cases "nse_segment sys drv today ''Equity'' ((unbound, []), s1)")
      obtain st2 s3 where 2: "nse_segment sys drv today ''Debt'' (st1, s2) = (st2, s3)"
        by (cases "nse_segment sys drv today ''Debt'' (st1, s2)")
      obtain vars alerts where st2: "st2 = (vars, alerts)" by (cases st2)
      from b 1 2 st2 have y0: "y0 = (Inr alerts, s3)"
        by (simp add: for_each_Cons for_each_Nil)
      from nse_segment_inv[OF 1 continues_refl nse_inv_start]
      have p1: "continues s1 s2" "nse_inv today (rows_seen nse_announcement_rows s1 s2) st1" by simp_all
      from nse_segment_inv[OF 2 p1]
      have p2: "continues s1 s3" "nse_inv today (rows_seen nse_announcement_rows s1 s3) st2" by simp_all
      from p2(2) st2 have "\<forall>a \<in> set alerts. \<exists>row \<in> rows_seen nse_announcement_rows s1 s3. nse_dated today row a"
        by (simp add: nse_inv_def)
      then have "stems_from_snapshots nse_announcement_rows (nse_dated today) s1 s3 [] alerts"
        unfolding stems_from_snapshots_def rows_seen_def by blast
      with p2(1) y0 show "stemming nse_announcement_rows (nse_dated today) s1 y0"
        by (simp add: stemming_def)
    qed
  qed
qed


subsection \<open>Claims C1 and C3\<close>

lemma stemming_emitted:
  assumes "stemming rows_of ok s (Inr alerts, s')" "\<And>row a. ok row a \<Longrightarrow> emitted today a"
  shows "\<forall>a \<in> set alerts. emitted today a"
  using assms unfolding stemming_def stems_from_snapshots_def by fastforce

lemma scraper_emitted:
  assumes "scraper \<in> snd ` set scrapers" "scraper sys today s = Some (Inr alerts, s')"
  shows "\<forall>a \<in> set alerts. emitted today a"
proof -
  from assms(1) consider "scraper = scrape_icra_ratings" | "scraper = scrape_careedge_ratings"
    | "scraper = scrape_acuite_ratings" | "scraper = scrape_crisil_ratings"
    | "scraper = scrape_bse_announcements" | "scraper = scrape_nse_announcements"
    | "scraper = scrape_sebi_announcements"
    by (auto simp: scrapers_def)
  then show ?thesis
  proof cases
    case 1
    with assms(2) show ?thesis
      using stemming_emitted[OF icra_stemming, of sys today s alerts s' today]
      by (simp add: dated_by_def)
  next
    case 2
    with assms(2) show ?thesis
      using stemming_emitted[OF careedge_stemming, of sys today s alerts s' today]
      by (simp add: dated_by_def)
  next
    case 3
    with assms(2) show ?thesis
      using stemming_emitted[OF acuite_stemming, of sys today s alerts s' today]
      by (simp add: dated_by_def)
  next
    case 4
    with assms(2) show ?thesis
      using stemming_emitted[OF crisil_stemming, of sys today s alerts s' today]
      by (simp add: dated_by_def)
  next
    case 5
    with assms(2) show ?thesis
      using stemming_emitted[OF bse_stemming, of sys today s alerts s' today]
      by (simp add: bse_dated_def)
  next
    case 6
    with assms(2) show ?thesis
      using stemming_emitted[OF nse_stemming, of sys today s alerts s' today]
      by (simp add: nse_dated_def)
  next
    case 7
    with assms(2) show ?thesis
      using stemming_emitted[OF sebi_stemming, of sys today s alerts s' today]
      by (simp add: dated_by_def)
  qed
qed

lemma run_scrapers_emitted:
  assumes "set l \<subseteq> set scrapers" "\<forall>a \<in> set acc. emitted today a"
    "run_scrapers l sys today acc s = Some (alerts, s')"
  shows "\<forall>a \<in> set alerts. emitted today a"
  using assms
proof (induction l arbitrary: acc s)
  case Nil
  then show ?case by simp
next
  case (Cons p l)
  obtain agency_name scraper_func where p: "p = (agency_name, scraper_func)" by (cases p)
  with Cons.prems(1) have mem: "scraper_func \<in> snd ` set scrapers" by force
  from Cons.prems(1) have sub: "set l \<subseteq> set scrapers" by simp
  show ?case
  proof (cases "scraper_func sys today s")
    case None
    with Cons.prems(3) p show ?thesis by simp
  next
    case (Some y)
    obtain r s1 where y: "y = (r, s1)" by (cases y)
    show ?thesis
    proof (cases r)
      case (Inl e)
      with Cons.prems(3) p Some y have "run_scrapers l sys today acc s1 = Some (alerts, s')" by simp
      from Cons.IH[OF sub Cons.prems(2) this] show ?thesis .
    next
      case (Inr agency_alerts)
      with Cons.prems(3) p Some y
      have r: "run_scrapers l sys today (acc @ agency_alerts) (sleep sys 2 s1) = Some (alerts, s')"
        by simp
      from scraper_emitted[OF mem] Some y Inr have "\<forall>a \<in> set agency_alerts. emitted today a"
        by simp
      with Cons.prems(2) have "\<forall>a \<in> set (acc @ agency_alerts). emitted today a" by auto
      from Cons.IH[OF sub this r] show ?thesis .
    qed
  qed
qed

text \<open>
  Claim C1. Every alert that a source adapter returns, and every alert that
  \<open>run_all_scrapers\<close> collects, has a non-empty company and a date that \<open>is_today_date\<close>
  accepts; the alerts of SEBI carry the placeholder company \<open>SEBI Announcement\<close>.
\<close>

theorem alerts_have_company_and_today:
  assumes "run_all_scrapers sys today s = Some (alerts, s')
           \<or> (\<exists>scraper \<in> snd ` set scrapers. scraper sys today s = Some (Inr alerts, s'))"
    and "a \<in> set alerts"
  shows "company a \<noteq> [] \<and> is_today_date today (date a)
         \<and> (agency a = ''SEBI'' \<longrightarrow> company a = ''SEBI Announcement'')"
proof -
  from assms(1) have "\<forall>a \<in> set alerts. emitted today a"
  proof
    assume "run_all_scrapers sys today s = Some (alerts, s')"
    then have "run_scrapers scrapers sys today [] s = Some (alerts, s')"
      by (simp add: run_all_scrapers_def)
    from run_scrapers_emitted[OF subset_refl _ this] show ?thesis by simp
  next
    assume "\<exists>scraper \<in> snd ` set scrapers. scraper sys today s = Some (Inr alerts, s')"
    then show ?thesis using scraper_emitted by blast
  qed
  with assms(2) show ?thesis by (simp add: emitted_def)
qed






subsection \<open>Claim C10\<close>

lemma nse_assign_short:
  assumes "tag_name row = ''tr''" "length (cells_of row) < 3"
  shows "nse_assign row vars = (Inr (), vars)"
  using assms by (simp add: nse_assign_def Let_def)

text \<open>
  Claim C10, as the code has it. A table row of NSE with fewer than three cells leaves the
  locals as they were. If \<open>company_name\<close> was never assigned in this call, by a row of
  this or of an earlier segment, reading it raises \<open>UnboundLocalError\<close> and the row is
  skipped; if the locals hold a non-empty company and a date of today, they are emitted
  again, under the label of the current segment. A segment starts with the locals the
  segment before it left.
\<close>

theorem nse_short_row_keeps_locals:
  assumes "tag_name row = ''tr''" "length (cells_of row) < 3"
  shows "fst (nse_row segment today row (vars, alerts)) = vars
   \<and> (v_company_name vars = None \<longrightarrow>
        nse_emit segment today vars alerts = Inl UnboundLocalError
        \<and> nse_row segment today row (vars, alerts) = (vars, alerts))
   \<and> (\<forall>c d sj. v_company_name vars = Some c \<and> v_date_text vars = Some d \<and> v_subject vars = Some sj
        \<and> c \<noteq> [] \<and> is_today_date today d \<longrightarrow>
        nse_row segment today row (vars, alerts) =
          (vars, alerts @ [new_alert (''NSE ('' @ segment @ '')'') c d sj today]))
   \<and> for_each (nse_segment sys drv today) [''Equity'', ''Debt''] st =
        nse_segment sys drv today ''Debt'' (nse_segment sys drv today ''Equity'' st)
   \<and> (\<forall>s1 s2 soup. press sys drv (ByXPath (nse_tab segment)) s = (Inr (), s1)
        \<and> page_source drv s1 = (Inr soup, s2) \<longrightarrow>
        nse_segment sys drv today segment ((vars, alerts), s) =
          (for_each (nse_row segment today) (nse_announcement_rows soup) (vars, alerts), s2))"
proof (intro conjI allI impI)
  show "fst (nse_row segment today row (vars, alerts)) = vars"
    by (simp add: nse_row_def nse_assign_short[OF assms] split: sum.splits)
next
  assume "v_company_name vars = None"
  then show "nse_emit segment today vars alerts = Inl UnboundLocalError"
    by (simp add: nse_emit_def read_local_def)
next
  assume "v_company_name vars = None"
  then show "nse_row segment today row (vars, alerts) = (vars, alerts)"
    by (simp add: nse_row_def nse_assign_short[OF assms] nse_emit_def read_local_def)
next
  fix c d sj
  assume "v_company_name vars = Some c \<and> v_date_text vars = Some d \<and> v_subject vars = Some sj
        \<and> c \<noteq> [] \<and> is_today_date today d"
  then show "nse_row segment today row (vars, alerts) =
          (vars, alerts @ [new_alert (''NSE ('' @ segment @ '')'') c d sj today])"
    by (simp add: nse_row_def nse_assign_short[OF assms] nse_emit_def read_local_def)
next
  show "for_each (nse_segment sys drv today) [''Equity'', ''Debt''] st =
        nse_segment sys drv today ''Debt'' (nse_segment sys drv today ''Equity'' st)"
    by (simp add: for_each_Cons for_each_Nil)
next
  fix s1 s2 soup
  assume "press sys drv (ByXPath (nse_tab segment)) s = (Inr (), s1)
        \<and> page_source drv s1 = (Inr soup, s2)"
  then show "nse_segment sys drv today segment ((vars, alerts), s) =
          (for_each (nse_row segment today) (nse_announcement_rows soup) (vars, alerts), s2)"
    by (simp add: nse_segment_def bindE_def nse_page_def)
qed

section \<open>Worked runs on the simulated sites\<close>

subsection \<open>Evaluating the calls\<close>


lemma system_of_sel: "driver (system_of drv) = Some drv" "passage (system_of drv) = (\<lambda>n w. w)"
  by (simp_all add: system_of_def)

lemmas driver_calls = perform_def driver_get_def find_element_def find_elements_def clear_def
  send_keys_def click_def is_enabled_def is_displayed_def element_text_def
  wait_until_presence_def page_source_def execute_script_def sleep_def bindE_def returnE_def
  sleepE_def except_def open_page_def fill_def press_def


lemma d0_iso: "isoformat d0 = ''2026-11-04T09:30:00''"
  by (simp add: isoformat_def d0_def directive_def zfill_def show_nat_eval)

lemma strip_plain: "strip ''Acme Finance'' = ''Acme Finance''"
  "strip ''Board meeting'' = ''Board meeting''"
  "strip ''01/01/2020 10:00'' = ''01/01/2020 10:00''"
  "strip ''04-Nov-2026 10:00'' = ''04-Nov-2026 10:00''"
  by (simp_all add: strip_def lstrip_def rstrip_def isspace_def)

lemma cell_text_plain: "get_text_strip (Tag ''td'' None [NavigableString t]) = (if strip t = [] then [] else strip t)"
  by (simp add: get_text_strip_def interesting_def container_kind_def)


lemma cells_row3: "cells_of (row3 a b c) = [Tag ''td'' None [NavigableString a], Tag ''td'' None [NavigableString b],
      Tag ''td'' None [NavigableString c]]"
  by (simp add: cells_of_def find_all_def row3_def is_tag_def)










lemma today_d0:
  "is_today_date d0 ''04-Nov-2026 10:00''" "is_today_date d0 ''04 Nov 2026''"
  "is_today_date d0 ''2026-11-04''"
  using embedded[of "''04-Nov-2026''" d0 "[]" "'' 10:00''"]
    embedded[of "''04 Nov 2026''" d0 "[]" "[]"] embedded[of "''2026-11-04''" d0 "[]" "[]"]
  by (simp_all add: todayVariants_d0)

lemma cells_header: "cells_of header_row = []"
  by (simp add: cells_of_def find_all_def header_row_def is_tag_def)

lemma tag_name_rows: "tag_name header_row = ''tr''" "tag_name (row3 a b c) = ''tr''"
  by (simp_all add: header_row_def row3_def)

lemma rows_nse:
  "nse_announcement_rows (nse_page_of w) =
     (if w \<le> 1 then [header_row, row3 ''04-Nov-2026 10:00'' ''Acme Finance'' ''Board meeting'']
      else [header_row])"
  by (simp add: nse_announcement_rows_def find_all_def nse_page_of_def header_row_def row3_def
      is_tag_def Let_def)

lemma nse_row_header_unbound:
  "nse_row segment today header_row (unbound, alerts) = (unbound, alerts)"
  by (simp add: nse_row_def nse_assign_def tag_name_rows cells_header Let_def nse_emit_def
      read_local_def unbound_def)

lemma nse_row_header_bound:
  "nse_row segment d0 header_row (nse_bound, alerts) =
     (nse_bound, alerts @ [nse_alert segment])"
  by (simp add: nse_row_def nse_assign_def tag_name_rows cells_header Let_def nse_emit_def
      read_local_def nse_bound_def today_d0 new_alert_def d0_iso nse_alert_def)

lemma nse_row_row3:
  "nse_row segment d0 (row3 ''04-Nov-2026 10:00'' ''Acme Finance'' ''Board meeting'') (vars, alerts) =
     (nse_bound, alerts @ [nse_alert segment])"
  by (simp add: nse_row_def nse_assign_def tag_name_rows cells_row3 cell_text_plain strip_plain
      Let_def nse_emit_def read_local_def nse_bound_def today_d0 new_alert_def d0_iso nse_alert_def)

lemma nse_site_sel:
  "drv_get nse_site = (\<lambda>url w. (Inr (), w))"
  "drv_find_element nse_site = (\<lambda>loc w. (Inr (), w))"
  "drv_click nse_site = (\<lambda>h w. (Inr (), Suc w))"
  "drv_page_source nse_site = (\<lambda>w. (Inr (nse_page_of w), w))"
  by (simp_all add: nse_site_def stub_def)

lemma nse_segment_site:
  "nse_segment (system_of nse_site) nse_site d0 segment (st, \<lparr>world = w, calls = cs\<rparr>) =
    (nse_page segment d0 (nse_page_of (Suc w)) st,
     \<lparr>world = Suc w, calls = cs @ [FindElement (ByXPath (nse_tab segment)), Click, Sleep 3,
        PageSource (Some (nse_page_of (Suc w)))]\<rparr>)"
  by (simp add: nse_segment_def driver_calls nse_site_sel system_of_sel)

lemma nse_open:
  "open_page (system_of nse_site) nse_site url n \<lparr>world = w, calls = cs\<rparr> =
     (Inr (), \<lparr>world = w, calls = cs @ [Get url, Sleep n]\<rparr>)"
  by (simp add: driver_calls nse_site_sel system_of_sel)

lemma nse_run:
  "scrape_nse_announcements (system_of nse_site) d0 start =
     Some (Inr [nse_alert ''Equity'', nse_alert ''Debt''], nse_end)"
  by (simp add: scrape_nse_announcements_def return_empty_on_error_def system_of_sel
      bindP_def lift_def start_def nse_open for_each_def nse_segment_site nse_page_def rows_nse
      nse_row_header_unbound nse_row_header_bound nse_row_row3 nse_end_def numeral_2_eq_2)

section \<open>Returning, raising and not returning\<close>

subsection \<open>Returning and not returning\<close>

































section \<open>The claims on the worked runs\<close>

subsection \<open>Claim C3: the runs\<close>


lemma snapshots_nse: "snapshots (new_calls start nse_end) = [nse_page_of 1, nse_page_of 2]"
  by (simp add: new_calls_def start_def nse_end_def)






subsection \<open>Claim C10: the runs\<close>

theorem nse_short_row_keeps_locals_witness:
  "nse_row ''Equity'' d0 header_row (unbound, []) = (unbound, [])
   \<and> nse_emit ''Equity'' d0 unbound [] = Inl UnboundLocalError
   \<and> nse_row ''Equity'' d0 header_row (nse_bound, []) = (nse_bound, [nse_alert ''Equity''])"
proof -
  have short: "tag_name header_row = ''tr''" "length (cells_of header_row) < 3"
    by (simp_all add: tag_name_rows cells_header)
  have u: "v_company_name unbound = None" by (simp add: unbound_def)
  have b: "v_company_name nse_bound = Some ''Acme Finance'' \<and>
      v_date_text nse_bound = Some ''04-Nov-2026 10:00'' \<and>
      v_subject nse_bound = Some ''Board meeting'' \<and> ''Acme Finance'' \<noteq> [] \<and>
      is_today_date d0 ''04-Nov-2026 10:00''"
    by (simp add: nse_bound_def today_d0)
  have a: "new_alert (''NSE ('' @ ''Equity'' @ '')'') ''Acme Finance'' ''04-Nov-2026 10:00''
      ''Board meeting'' d0 = nse_alert ''Equity''"
    by (simp add: new_alert_def nse_alert_def d0_iso)
  from nse_short_row_keeps_locals[OF short, of "''Equity''" d0 unbound "[]"] u
  have "nse_row ''Equity'' d0 header_row (unbound, []) = (unbound, [])"
    "nse_emit ''Equity'' d0 unbound [] = Inl UnboundLocalError" by blast+
  moreover from nse_short_row_keeps_locals[OF short, of "''Equity''" d0 nse_bound "[]"] b
  have "nse_row ''Equity'' d0 header_row (nse_bound, []) =
     (nse_bound, [] @ [new_alert (''NSE ('' @ ''Equity'' @ '')'') ''Acme Finance'' ''04-Nov-2026 10:00''
      ''Board meeting'' d0])" by blast
  ultimately show ?thesis by (simp only: a append_Nil simp_thms)
qed

text \<open>
  The claim as stated fails for the first row of the second segment: the locals live as
  long as the call, so the header row that opens the Debt page, which has no cells, is
  not skipped; it raises an alert of the Debt segment from the values that the row of the
  Equity page left.
\<close>

theorem nse_first_row_of_segment_counterexample:
  "scrape_nse_announcements (system_of nse_site) d0 start =
     Some (Inr [nse_alert ''Equity'', nse_alert ''Debt''], nse_end)
   \<and> snapshots (new_calls start nse_end) = [nse_page_of 1, nse_page_of 2]
   \<and> nse_announcement_rows (nse_page_of 2) = [header_row]
   \<and> tag_name header_row = ''tr'' \<and> length (cells_of header_row) < 3
   \<and> nse_page ''Debt'' d0 (nse_page_of 2) (nse_bound, [nse_alert ''Equity'']) =
        (nse_bound, [nse_alert ''Equity'', nse_alert ''Debt''])"
  by (simp add: nse_run snapshots_nse rows_nse tag_name_rows cells_header nse_page_def for_each_def
      nse_row_header_bound)


end
